theory Spec2Isabelle
  imports Complex_Main "HOL-Library.Multiset" "HOL-Library.Sublist" "HOL-Library.Product_Lexorder"
begin

section \<open>Python exceptions\<close>

text \<open>
  Every raise of the modelled code is a value of this type; a function that can raise
  returns \<open>exn + 'a\<close> with \<open>Inl\<close> for the exception.
\<close>

datatype exn =
  KeyError string | NameError string | ValueError | ParseError | UnicodeEncodeError | OtherError string

section \<open>The validation suite: test_comprehensive_attribution.py\<close>

subsection \<open>Data\<close>

text \<open>
  One entry of the response's \<open>contributions\<close> object. The suite reads \<open>percentage\<close>,
  \<open>prior\<close>, \<open>modulation_factor\<close> and \<open>level\<close> with \<open>data[...]\<close> in its display loop
  (KeyError when absent) and \<open>percentage\<close>, \<open>level\<close> with \<open>.get(..., default)\<close>
  in its validation, so every field is optional here. JSON numbers are rationals: the
  comparisons with 15 and 12 are exact on finite floats.
\<close>

record source_data =
  sd_percentage :: "rat option"
  sd_prior :: "rat option"
  sd_modulation_factor :: "rat option"
  sd_level :: "string option"
  sd_explanation :: "string option"

text \<open>A JSON object in document order; its keys are pairwise distinct once parsed to a dict.\<close>

type_synonym contributions = "(string \<times> source_data) list"

record api_result =
  ar_contributions :: "contributions option"

record payload =
  p_timestamp :: string
  p_readings :: "(string \<times> rat) list"
  p_wind_dir :: rat
  p_wind_speed :: rat
  p_blh :: rat
  p_fire_count :: int

record test_case =
  tc_name :: string
  tc_timestamp :: string
  tc_readings :: "(string \<times> rat) list"
  tc_wind_dir :: rat
  tc_wind_speed :: rat
  tc_blh :: rat
  tc_fire_count :: int
  expected_high :: "string list"
  expected_low :: "string list"

text \<open>TEST_CASES[0], lines 32-50, and TEST_CASES[11], lines 288-306.\<close>

definition test_case_1 :: test_case where
  "test_case_1 = \<lparr>
     tc_name = ''1. Feb Cold Winter Morning Rush'',
     tc_timestamp = ''2025-02-27T09:00:00'',
     tc_readings = [(''PM25'', 240), (''PM10'', 380), (''NO2'', 78), (''SO2'', 15), (''CO'', 216 / 100)],
     tc_wind_dir = 30,
     tc_wind_speed = 79 / 10,
     tc_blh = 105,
     tc_fire_count = 1,
     expected_high = [''secondary_aerosols''],
     expected_low = [''stubble_burning''] \<rparr>"

definition test_case_12 :: test_case where
  "test_case_12 = \<lparr>
     tc_name = ''12. Nov High Fires but EAST Wind'',
     tc_timestamp = ''2025-11-05T01:00:00'',
     tc_readings = [(''PM25'', 138), (''PM10'', 200), (''NO2'', 77), (''SO2'', 15), (''CO'', 361 / 100)],
     tc_wind_dir = 114,
     tc_wind_speed = 35 / 10,
     tc_blh = 270,
     tc_fire_count = 316,
     expected_high = [''secondary_aerosols''],
     expected_low = [''stubble_burning''] \<rparr>"

subsection \<open>run\_test\<close>

text \<open>The request body built at lines 324-331.\<close>

definition payload_of :: "test_case \<Rightarrow> payload" where
  "payload_of tc = \<lparr>
     p_timestamp = tc_timestamp tc,
     p_readings = tc_readings tc,
     p_wind_dir = tc_wind_dir tc,
     p_wind_speed = tc_wind_speed tc,
     p_blh = tc_blh tc,
     p_fire_count = tc_fire_count tc \<rparr>"

text \<open>
  Lines 346-350: \<open>sorted(contributions.items(), key=lambda x: x[1]['percentage'], reverse=True)\<close>.
  The key function raises KeyError on an entry without a percentage; Python's sort is
  stable, also with \<open>reverse=True\<close>, and so is \<open>sort_key\<close> on the negated key.
\<close>

definition sorted_sources :: "contributions \<Rightarrow> exn + contributions" where
  "sorted_sources cs =
     (if list_all (\<lambda>x. sd_percentage (snd x) \<noteq> None) cs
      then Inr (sort_key (\<lambda>x. - the (sd_percentage (snd x))) cs)
      else Inl (KeyError ''percentage''))"

text \<open>Lines 352-375: the four subscript reads of one display row, in the source's order.\<close>

definition display_row :: "source_data \<Rightarrow> exn + unit" where
  "display_row d =
     (if sd_percentage d = None then Inl (KeyError ''percentage'')
      else if sd_prior d = None then Inl (KeyError ''prior'')
      else if sd_modulation_factor d = None then Inl (KeyError ''modulation_factor'')
      else if sd_level d = None then Inl (KeyError ''level'')
      else Inr ())"

fun display_loop :: "contributions \<Rightarrow> exn + unit" where
  "display_loop [] = Inr ()"
| "display_loop ((source, d) # rest) =
     (case display_row d of Inl e \<Rightarrow> Inl e | Inr u \<Rightarrow> display_loop rest)"

text \<open>
  Lines 383-385 and 395-396: \<open>contributions.get(expected, {})\<close>, then
  \<open>.get('percentage', 0)\<close> and \<open>.get('level', '')\<close>.
\<close>

definition get_percentage :: "contributions \<Rightarrow> string \<Rightarrow> rat" where
  "get_percentage cs expected =
     (case map_of cs expected of
        None \<Rightarrow> 0
      | Some d \<Rightarrow> (case sd_percentage d of None \<Rightarrow> 0 | Some p \<Rightarrow> p))"

definition get_level :: "contributions \<Rightarrow> string \<Rightarrow> string" where
  "get_level cs expected =
     (case map_of cs expected of
        None \<Rightarrow> ''''
      | Some d \<Rightarrow> (case sd_level d of None \<Rightarrow> '''' | Some l \<Rightarrow> l))"

text \<open>Line 387: \<open>level in ['High', 'Medium'] or pct >= 15\<close>. Line 398: \<open>pct <= 12\<close>.\<close>

definition is_elevated :: "contributions \<Rightarrow> string \<Rightarrow> bool" where
  "is_elevated cs expected =
     (get_level cs expected \<in> set [''High'', ''Medium''] \<or> get_percentage cs expected \<ge> 15)"

definition is_low :: "contributions \<Rightarrow> string \<Rightarrow> bool" where
  "is_low cs expected = (get_percentage cs expected \<le> 12)"

text \<open>The two validation loops, lines 382-391 and 394-402, threading the flag \<open>passed\<close>.\<close>

fun check_expected_high :: "contributions \<Rightarrow> string list \<Rightarrow> bool \<Rightarrow> bool" where
  "check_expected_high cs [] passed = passed"
| "check_expected_high cs (expected # rest) passed =
     check_expected_high cs rest (if is_elevated cs expected then passed else False)"

fun check_expected_low :: "contributions \<Rightarrow> string list \<Rightarrow> bool \<Rightarrow> bool" where
  "check_expected_low cs [] passed = passed"
| "check_expected_low cs (expected # rest) passed =
     check_expected_low cs rest (if is_low cs expected then passed else False)"

text \<open>
  \<open>run_test\<close>, lines 310-404. The HTTP call is the parameter \<open>api\<close>; \<open>None\<close> is any
  exception of the \<open>try\<close> block at lines 333-339, which returns False. Line 343 reads
  \<open>result.get('contributions', {})\<close>. The display loop runs outside the \<open>try\<close>
  block, so its KeyError leaves \<open>run_test\<close>.
\<close>

definition result_contributions :: "api_result \<Rightarrow> contributions" where
  "result_contributions result = (case ar_contributions result of None \<Rightarrow> [] | Some c \<Rightarrow> c)"

definition run_test :: "(payload \<Rightarrow> api_result option) \<Rightarrow> test_case \<Rightarrow> exn + bool" where
  "run_test api tc =
     (case api (payload_of tc) of
        None \<Rightarrow> Inr False
      | Some result \<Rightarrow>
          (let cs = result_contributions result in
           case sorted_sources cs of
             Inl e \<Rightarrow> Inl e
           | Inr ss \<Rightarrow>
               (case display_loop ss of
                  Inl e \<Rightarrow> Inl e
                | Inr u \<Rightarrow>
                    Inr (check_expected_low cs (expected_low tc)
                          (check_expected_high cs (expected_high tc) True)))))"

text \<open>
  A well-formed response to the request of test case 1 in which the trapping-driven
  source is reported at 25 percent, level Medium.
\<close>

definition medium_contributions :: contributions where
  "medium_contributions =
     [(''stubble_burning'',
         \<lparr>sd_percentage = Some 8, sd_prior = Some 20, sd_modulation_factor = Some (4 / 10),
          sd_level = Some ''Low'', sd_explanation = Some ''wind outside sector''\<rparr>),
      (''traffic'',
         \<lparr>sd_percentage = Some 32, sd_prior = Some 30, sd_modulation_factor = Some (11 / 10),
          sd_level = Some ''High'', sd_explanation = Some ''rush hour''\<rparr>),
      (''secondary_aerosols'',
         \<lparr>sd_percentage = Some 25, sd_prior = Some 26, sd_modulation_factor = Some 1,
          sd_level = Some ''Medium'', sd_explanation = Some ''trapping''\<rparr>),
      (''dust'',
         \<lparr>sd_percentage = Some 25, sd_prior = Some 20, sd_modulation_factor = Some (12 / 10),
          sd_level = Some ''Medium'', sd_explanation = None\<rparr>),
      (''local_combustion'',
         \<lparr>sd_percentage = Some 10, sd_prior = Some 4, sd_modulation_factor = Some (25 / 10),
          sd_level = Some ''Low'', sd_explanation = Some ''''\<rparr>)]"

definition medium_api :: "payload \<Rightarrow> api_result option" where
  "medium_api p = Some \<lparr>ar_contributions = Some medium_contributions\<rparr>"

section \<open>The attribution engine\<close>

text \<open>
  Modelled from the spec: the attribution modulation engine (Source Catalog, Context
  Normalizer, Modulation Rule Set, Aggregator) is not among the source files; only the
  suite that calls it over HTTP is. The definitions of this section follow sections 3,
  4.1, 4.2, 4.3 and 4.4 of the specification. The per-source rules, whose formulas and
  constants the specification leaves open, are the parameter \<open>rule\<close>; the clamping
  bounds, the floor and the ceiling, are the parameters \<open>lo\<close> and \<open>hi\<close>.
\<close>

datatype level = Low | Medium | High

datatype engine_error = ConfigurationError | ValidationError | ComputationError

record source =
  src_id :: string
  prior_percentage :: rat

record contribution_result =
  cr_prior :: rat
  cr_modulation_factor :: rat
  cr_percentage :: rat
  cr_level :: level
  cr_explanation :: string

text \<open>The response: the contributions mapping as an association list keyed by source id.\<close>

type_synonym response = "(string \<times> contribution_result) list"

definition tolerance :: rat where
  "tolerance = 1 / 100"

text \<open>
  Modelled from the spec: section 4.1, the catalog fails to load when the priors do not
  sum to 100 within tolerance or a source id is duplicated.
\<close>

definition load_catalog :: "source list \<Rightarrow> engine_error + source list" where
  "load_catalog srcs =
     (if \<bar>sum_list (map prior_percentage srcs) - 100\<bar> \<le> tolerance \<and> distinct (map src_id srcs)
      then Inr srcs else Inl ConfigurationError)"

text \<open>
  Modelled from the spec: section 4.2, the wind direction is wrapped modulo 360; a
  negative boundary-layer height, fire count or wind speed is a ValidationError.
\<close>

definition wrap360 :: "rat \<Rightarrow> rat" where
  "wrap360 d = d - 360 * of_int \<lfloor>d / 360\<rfloor>"

definition normalize_request :: "payload \<Rightarrow> engine_error + payload" where
  "normalize_request req =
     (if p_blh req < 0 \<or> p_fire_count req < 0 \<or> p_wind_speed req < 0
      then Inl ValidationError
      else Inr (req\<lparr>p_wind_dir := wrap360 (p_wind_dir req)\<rparr>))"

text \<open>
  Modelled from the spec: section 4.3, a rule gives a factor and an explanation; the
  factor is clamped to the range from floor to ceiling.
\<close>

definition clamp_factor :: "rat \<Rightarrow> rat \<Rightarrow> rat \<Rightarrow> rat" where
  "clamp_factor lo hi f = max lo (min hi f)"

text \<open>
  Modelled from the spec: section 4.4 step 3, High from 30, Medium from 15, Low below.
\<close>

definition assign_level :: "rat \<Rightarrow> level" where
  "assign_level pct = (if pct \<ge> 30 then High else if pct \<ge> 15 then Medium else Low)"

text \<open>
  Modelled from the spec: section 4.4, the Aggregator. Step 1 weights each prior by its
  factor, step 2 renormalizes and fails with ComputationError on a zero total, steps 3
  and 4 attach the level and the explanation.
\<close>

definition weighted :: "source \<times> rat \<times> string \<Rightarrow> rat" where
  "weighted x = prior_percentage (fst x) * fst (snd x)"

definition aggregate :: "(source \<times> rat \<times> string) list \<Rightarrow> engine_error + response" where
  "aggregate xs =
     (let total = sum_list (map weighted xs) in
      if total = 0 then Inl ComputationError
      else Inr (map (\<lambda>x.
             (src_id (fst x),
              \<lparr>cr_prior = prior_percentage (fst x),
               cr_modulation_factor = fst (snd x),
               cr_percentage = 100 * weighted x / total,
               cr_level = assign_level (100 * weighted x / total),
               cr_explanation = snd (snd x)\<rparr>)) xs))"

text \<open>
  Modelled from the spec: section 2, Request, Context Normalizer, Modulation Rule Set per
  source, Aggregator, Response.
\<close>

definition score ::
  "rat \<Rightarrow> rat \<Rightarrow> (payload \<Rightarrow> source \<Rightarrow> rat \<times> string) \<Rightarrow> source list \<Rightarrow> payload \<Rightarrow> engine_error + response"
where
  "score lo hi rule catalog req =
     (case load_catalog catalog of
        Inl e \<Rightarrow> Inl e
      | Inr srcs \<Rightarrow>
          (case normalize_request req of
             Inl e \<Rightarrow> Inl e
           | Inr r \<Rightarrow>
               aggregate (map (\<lambda>s. (s, clamp_factor lo hi (fst (rule r s)), snd (rule r s))) srcs)))"

definition response_total :: "response \<Rightarrow> rat" where
  "response_total resp = sum_list (map (\<lambda>x. cr_percentage (snd x)) resp)"

text \<open>A catalog, a rule and a request to run the engine on.\<close>

definition example_catalog :: "source list" where
  "example_catalog =
     [\<lparr>src_id = ''stubble_burning'', prior_percentage = 20\<rparr>,
      \<lparr>src_id = ''traffic'', prior_percentage = 30\<rparr>,
      \<lparr>src_id = ''secondary_aerosols'', prior_percentage = 26\<rparr>,
      \<lparr>src_id = ''dust'', prior_percentage = 20\<rparr>,
      \<lparr>src_id = ''local_combustion'', prior_percentage = 4\<rparr>]"

definition example_rule :: "payload \<Rightarrow> source \<Rightarrow> rat \<times> string" where
  "example_rule req s =
     (if src_id s = ''secondary_aerosols'' \<and> p_blh req \<le> 150 then (2, ''extreme trapping'')
      else if src_id s = ''stubble_burning'' then (of_int (p_fire_count req) / 1000, ''fires'')
      else (1, ''neutral''))"

section \<open>The live feed ingester: fetch\_cpcb\_live.py\<close>

subsection \<open>Station names\<close>

text \<open>
  Strings are ASCII here: \<open>str.lower\<close> maps A-Z to a-z and \<open>str.strip\<close> removes the
  ASCII characters for which \<open>str.isspace\<close> holds (tab, newline, vertical tab, form
  feed, carriage return, the four separators 0x1C-0x1F and the space).
\<close>

definition lower_char :: "char \<Rightarrow> char" where
  "lower_char c =
     (let n = (of_char c :: nat) in if 65 \<le> n \<and> n \<le> 90 then char_of (n + 32) else c)"

definition lower :: "string \<Rightarrow> string" where
  "lower s = map lower_char s"

definition is_space :: "char \<Rightarrow> bool" where
  "is_space c = (let n = (of_char c :: nat) in (9 \<le> n \<and> n \<le> 13) \<or> (28 \<le> n \<and> n \<le> 32))"

definition strip :: "string \<Rightarrow> string" where
  "strip s = rev (dropWhile is_space (rev (dropWhile is_space s)))"

text \<open>
  \<open>str.replace(old, new)\<close>: the occurrences of \<open>old\<close> are found from the left and do
  not overlap; with an empty \<open>old\<close> Python puts \<open>new\<close> around every character.
\<close>

fun replace :: "string \<Rightarrow> string \<Rightarrow> string \<Rightarrow> string" where
  "replace old new [] = (if old = [] then new else [])"
| "replace old new (c # cs) =
     (if old = [] then new @ c # replace old new cs
      else if prefix old (c # cs) then new @ replace old new (drop (length old) (c # cs))
      else c # replace old new cs)"

text \<open>\<open>normalize_station_name\<close>, lines 104-111.\<close>

definition station_suffixes :: "string list" where
  "station_suffixes =
     ['' - dpcc'', '' - cpcb'', '' - imd'', '' - uppcb'', '' - hspcb'', '' - rspcb'', '' - iitm'']"

definition normalize_station_name :: "string \<Rightarrow> string" where
  "normalize_station_name name =
     (let name1 = strip (lower name);
          name2 = foldl (\<lambda>n suffix. replace suffix [] n) name1 station_suffixes;
          name3 = replace ''  '' '' '' (replace '','' [] name2)
      in strip name3)"

subsection \<open>Matching a feed station to the metadata table\<close>

text \<open>A row of stations\_metadata.csv, with the columns the two jobs read.\<close>

record station_row =
  st_station_id :: int
  st_station_name :: string
  st_lat :: rat
  st_lon :: rat
  st_filename :: string

text \<open>
  \<open>find_matching_station\<close>, lines 114-134. \<open>SequenceMatcher(None, a, b).ratio()\<close> is
  difflib's, the parameter \<open>ratio\<close>; its float results are read as rationals and the
  threshold 0.6 as 6/10. The loop carries \<open>best_match\<close> and \<open>best_score\<close> and leaves
  at once on an exact match.
\<close>

fun find_loop ::
  "(string \<Rightarrow> string \<Rightarrow> rat) \<Rightarrow> string \<Rightarrow> station_row option \<Rightarrow> rat \<Rightarrow> station_row list
     \<Rightarrow> station_row option"
where
  "find_loop ratio rss_normalized best_match best_score [] = best_match"
| "find_loop ratio rss_normalized best_match best_score (row # rows) =
     (let our_normalized = normalize_station_name (st_station_name row) in
      if rss_normalized = our_normalized then Some row
      else
        (let score = ratio rss_normalized our_normalized in
         if score > best_score \<and> score > 6 / 10
         then find_loop ratio rss_normalized (Some row) score rows
         else find_loop ratio rss_normalized best_match best_score rows))"

definition find_matching_station ::
  "(string \<Rightarrow> string \<Rightarrow> rat) \<Rightarrow> string \<Rightarrow> station_row list \<Rightarrow> station_row option"
where
  "find_matching_station ratio rss_name our_stations =
     find_loop ratio (normalize_station_name rss_name) None 0 our_stations"

text \<open>
  A similarity to run the matcher on: the share of positions, over both lengths, at
  which the two strings agree from the left.
\<close>

definition prefix_ratio :: "string \<Rightarrow> string \<Rightarrow> rat" where
  "prefix_ratio a b =
     (if a = [] \<and> b = [] then 1
      else 2 * of_nat (length (takeWhile (\<lambda>p. fst p = snd p) (zip a b)))
             / of_nat (length a + length b))"

definition anand_vihar :: station_row where
  "anand_vihar =
     \<lparr>st_station_id = 235, st_station_name = ''Anand Vihar'', st_lat = 2865 / 100,
      st_lon = 7732 / 100, st_filename = ''anand_vihar.csv''\<rparr>"

definition example_stations :: "station_row list" where
  "example_stations =
     [anand_vihar,
      \<lparr>st_station_id = 240, st_station_name = ''Anand Lok'', st_lat = 2855 / 100,
       st_lon = 7722 / 100, st_filename = ''anand_lok.csv''\<rparr>,
      \<lparr>st_station_id = 301, st_station_name = ''Rohini'', st_lat = 2873 / 100,
       st_lon = 7712 / 100, st_filename = ''rohini.csv''\<rparr>]"

subsection \<open>Parsing the feed\<close>

text \<open>
  An element of the parsed document, as ElementTree gives it: tag, attribute dictionary
  and child elements in document order.
\<close>

datatype xml = Element (tag: string) (attrib: "(string \<times> string) list") (children: "xml list")

text \<open>\<open>Element.iter(tag)\<close>: the element itself and its descendants, in document order.\<close>

fun iter_all :: "xml \<Rightarrow> xml list" where
  "iter_all (Element t a cs) = Element t a cs # concat (map iter_all cs)"

definition xml_iter :: "string \<Rightarrow> xml \<Rightarrow> xml list" where
  "xml_iter t doc = filter (\<lambda>e. tag e = t) (iter_all doc)"

text \<open>\<open>findall\<close> and \<open>find\<close> with a plain tag look at the direct children only.\<close>

definition xml_findall :: "string \<Rightarrow> xml \<Rightarrow> xml list" where
  "xml_findall t e = filter (\<lambda>c. tag c = t) (children e)"

definition xml_find :: "string \<Rightarrow> xml \<Rightarrow> xml option" where
  "xml_find t e = List.find (\<lambda>c. tag c = t) (children e)"

definition xml_get :: "xml \<Rightarrow> string \<Rightarrow> string option" where
  "xml_get e k = map_of (attrib e) k"

text \<open>
  A value of a station's \<open>pollutants\<close> dictionary: a float from \<open>float(hourly_value)\<close>,
  or the \<open>Value\<close> attribute of the Air\_Quality\_Index element, which may be absent.
  The floats are the type parameter \<open>'f\<close>.
\<close>

datatype 'f pollutant_value = Reading 'f | AqiValue "string option"

record 'v station_data =
  rss_timestamp :: int
  rss_lat :: "string option"
  rss_lon :: "string option"
  rss_pollutants :: "string \<rightharpoonup> 'v"

text \<open>
  Lines 74-83, one Pollutant\_Index element. \<open>float\<close> is the parameter \<open>float_of\<close>;
  only its ValueError is caught.
\<close>

definition parse_pollutant ::
  "(string \<Rightarrow> exn + 'f) \<Rightarrow> xml \<Rightarrow> (string \<rightharpoonup> 'f pollutant_value)
     \<Rightarrow> exn + (string \<rightharpoonup> 'f pollutant_value)"
where
  "parse_pollutant float_of pollutant pollutants =
     (case (xml_get pollutant ''id'', xml_get pollutant ''Hourly_sub_index'') of
        (Some poll_id, Some hourly_value) \<Rightarrow>
          (if poll_id \<noteq> [] \<and> hourly_value \<noteq> [] \<and> hourly_value \<noteq> ''NA''
           then (case float_of hourly_value of
                   Inr v \<Rightarrow> Inr (pollutants(poll_id \<mapsto> Reading v))
                 | Inl e \<Rightarrow> (if e = ValueError then Inr pollutants else Inl e))
           else Inr pollutants)
      | _ \<Rightarrow> Inr pollutants)"

fun parse_pollutants ::
  "(string \<Rightarrow> exn + 'f) \<Rightarrow> xml list \<Rightarrow> (string \<rightharpoonup> 'f pollutant_value)
     \<Rightarrow> exn + (string \<rightharpoonup> 'f pollutant_value)"
where
  "parse_pollutants float_of [] pollutants = Inr pollutants"
| "parse_pollutants float_of (p # ps) pollutants =
     (case parse_pollutant float_of p pollutants of
        Inl e \<Rightarrow> Inl e
      | Inr pollutants' \<Rightarrow> parse_pollutants float_of ps pollutants')"

text \<open>
  Lines 58-95, the body of the loop over the Station elements. \<open>datetime.strptime\<close>
  with the format of line 68 is the parameter \<open>strptime\<close>; only its ValueError is
  caught, by \<open>continue\<close>.
\<close>

definition parse_station ::
  "(string \<Rightarrow> exn + int) \<Rightarrow> (string \<Rightarrow> exn + 'f) \<Rightarrow> xml
     \<Rightarrow> (string \<rightharpoonup> 'f pollutant_value station_data)
     \<Rightarrow> exn + (string \<rightharpoonup> 'f pollutant_value station_data)"
where
  "parse_station strptime float_of station stations_data =
     (case (xml_get station ''id'', xml_get station ''lastupdate'') of
        (Some station_id, Some lastupdate) \<Rightarrow>
          (if station_id = [] \<or> lastupdate = [] then Inr stations_data
           else
             (case strptime lastupdate of
                Inl e \<Rightarrow> (if e = ValueError then Inr stations_data else Inl e)
              | Inr timestamp \<Rightarrow>
                  (case parse_pollutants float_of (xml_findall ''Pollutant_Index'' station) Map.empty of
                     Inl e \<Rightarrow> Inl e
                   | Inr pollutants \<Rightarrow>
                       Inr (stations_data(station_id \<mapsto>
                              \<lparr>rss_timestamp = timestamp,
                               rss_lat = xml_get station ''latitude'',
                               rss_lon = xml_get station ''longitude'',
                               rss_pollutants =
                                 (case xml_find ''Air_Quality_Index'' station of
                                    None \<Rightarrow> pollutants
                                  | Some aqi_elem \<Rightarrow>
                                      pollutants(''AQI'' \<mapsto> AqiValue (xml_get aqi_elem ''Value'')))\<rparr>)))))
      | _ \<Rightarrow> Inr stations_data)"

fun parse_stations ::
  "(string \<Rightarrow> exn + int) \<Rightarrow> (string \<Rightarrow> exn + 'f) \<Rightarrow> xml list
     \<Rightarrow> (string \<rightharpoonup> 'f pollutant_value station_data)
     \<Rightarrow> exn + (string \<rightharpoonup> 'f pollutant_value station_data)"
where
  "parse_stations strptime float_of [] stations_data = Inr stations_data"
| "parse_stations strptime float_of (s # ss) stations_data =
     (case parse_station strptime float_of s stations_data of
        Inl e \<Rightarrow> Inl e
      | Inr stations_data' \<Rightarrow> parse_stations strptime float_of ss stations_data')"

text \<open>
  \<open>parse_rss_feed\<close>, lines 49-101. \<open>ET.fromstring\<close> is the parameter \<open>fromstring\<close>.
  The \<open>try\<close> block spans the parse and the whole loop, and its handler catches
  ParseError only: any other exception leaves the function.
\<close>

definition parse_rss_feed ::
  "(string \<Rightarrow> exn + xml) \<Rightarrow> (string \<Rightarrow> exn + int) \<Rightarrow> (string \<Rightarrow> exn + 'f) \<Rightarrow> string
     \<Rightarrow> exn + (string \<rightharpoonup> 'f pollutant_value station_data)"
where
  "parse_rss_feed fromstring strptime float_of xml_content =
     (case (case fromstring xml_content of
              Inl e \<Rightarrow> Inl e
            | Inr doc \<Rightarrow> parse_stations strptime float_of (xml_iter ''Station'' doc) Map.empty) of
        Inl e \<Rightarrow> (if e = ParseError then Inr Map.empty else Inl e)
      | Inr stations_data \<Rightarrow> Inr stations_data)"

subsection \<open>Appending a reading to a station file\<close>

text \<open>
  A station file as pandas reads it: the column names and the rows. A row has its
  parsed \<open>Local Time\<close>, an instant in seconds, and the cells of the other columns that
  hold a value; a missing cell (NaN) is an absent key. The cell values are the type
  parameter \<open>'v\<close>. The \<open>Local Time\<close> values of a file carry their offset from UTC,
  as the rows this job writes do, so that they compare with the instant of line 156.
\<close>

record 'v csv_row =
  local_time :: int
  cells :: "(string \<times> 'v) list"

record 'v dataframe =
  df_columns :: "string list"
  df_rows :: "'v csv_row list"

text \<open>
  A file of the station data directory: \<open>Unreadable\<close> when \<open>pd.read_csv\<close> or the
  \<open>pd.to_datetime\<close> of line 148 raises. The directory maps a file name to its file.
\<close>

datatype 'v csv_file = Unreadable | Table "'v dataframe"

type_synonym 'v station_dir = "string \<rightharpoonup> 'v csv_file"

text \<open>\<open>POLLUTANT_MAP\<close>, lines 27-35, in the order of its items.\<close>

definition POLLUTANT_MAP :: "(string \<times> string) list" where
  "POLLUTANT_MAP =
     [(''PM2.5'', ''PM25''), (''PM10'', ''PM10''), (''NO2'', ''NO2''), (''SO2'', ''SO2''),
      (''CO'', ''CO''), (''OZONE'', ''O3''), (''NH3'', ''NH3'')]"

text \<open>
  Line 156: the naive timestamp of the feed is read as Indian Standard Time, so the
  instant is 5 hours 30 minutes earlier.
\<close>

definition to_local_time :: "int \<Rightarrow> int" where
  "to_local_time timestamp = timestamp - 19800"

text \<open>Lines 163-168: the new row, its cells in the order of \<open>POLLUTANT_MAP\<close>.\<close>

fun map_pollutants :: "(string \<times> string) list \<Rightarrow> (string \<rightharpoonup> 'v) \<Rightarrow> (string \<times> 'v) list" where
  "map_pollutants [] pollutants = []"
| "map_pollutants ((rss_key, csv_col) # rest) pollutants =
     (case pollutants rss_key of
        None \<Rightarrow> map_pollutants rest pollutants
      | Some v \<Rightarrow> (csv_col, v) # map_pollutants rest pollutants)"

definition make_new_row :: "'v station_data \<Rightarrow> 'v csv_row" where
  "make_new_row rss_data =
     \<lparr>local_time = to_local_time (rss_timestamp rss_data),
      cells = map_pollutants POLLUTANT_MAP (rss_pollutants rss_data)\<rparr>"

text \<open>
  Lines 176-179: \<open>pd.concat\<close> keeps the columns of the file and adds the new row's
  other columns after them; \<open>sort_values\<close> orders the rows by \<open>Local Time\<close>.
\<close>

definition concat_row :: "'v dataframe \<Rightarrow> 'v csv_row \<Rightarrow> 'v dataframe" where
  "concat_row df new_row =
     \<lparr>df_columns = df_columns df @
        filter (\<lambda>c. c \<notin> set (df_columns df)) (remdups (''Local Time'' # map fst (cells new_row))),
      df_rows = df_rows df @ [new_row]\<rparr>"

definition sort_values :: "'v dataframe \<Rightarrow> 'v dataframe" where
  "sort_values df = df\<lparr>df_rows := sort_key local_time (df_rows df)\<rparr>"

text \<open>
  \<open>update_station_csv\<close>, lines 137-184: the directory after the call and the value
  returned. The write of line 182 is taken to succeed.
\<close>

definition update_station_csv ::
  "'v station_dir \<Rightarrow> station_row \<Rightarrow> 'v station_data \<Rightarrow> 'v station_dir \<times> bool"
where
  "update_station_csv dir station_row rss_data =
     (case dir (st_filename station_row) of
        None \<Rightarrow> (dir, False)
      | Some Unreadable \<Rightarrow> (dir, False)
      | Some (Table df) \<Rightarrow>
          (if filter (\<lambda>r. local_time r = to_local_time (rss_timestamp rss_data)) (df_rows df) \<noteq> []
           then (dir, False)
           else
             (let new_row = make_new_row rss_data in
              if ''PM25'' \<notin> set (''Local Time'' # map fst (cells new_row)) \<and>
                 ''PM10'' \<notin> set (''Local Time'' # map fst (cells new_row))
              then (dir, False)
              else (dir(st_filename station_row \<mapsto> Table (sort_values (concat_row df new_row))), True))))"

text \<open>A directory with one station file of two rows, and three readings of the feed.\<close>

definition example_table :: "rat dataframe" where
  "example_table =
     \<lparr>df_columns = [''Local Time'', ''PM25'', ''PM10'', ''NO2''],
      df_rows = [\<lparr>local_time = 3600, cells = [(''PM25'', 240), (''NO2'', 78)]\<rparr>,
                 \<lparr>local_time = 7200, cells = [(''PM25'', 250), (''PM10'', 380)]\<rparr>]\<rparr>"

definition example_dir :: "rat station_dir" where
  "example_dir = [''anand_vihar.csv'' \<mapsto> Table example_table]"

definition reading_new :: "rat station_data" where
  "reading_new =
     \<lparr>rss_timestamp = 5400 + 19800, rss_lat = Some ''28.65'', rss_lon = Some ''77.32'',
      rss_pollutants = [''PM2.5'' \<mapsto> 245, ''OZONE'' \<mapsto> 31]\<rparr>"

definition reading_seen :: "rat station_data" where
  "reading_seen =
     \<lparr>rss_timestamp = 7200 + 19800, rss_lat = None, rss_lon = None,
      rss_pollutants = [''PM2.5'' \<mapsto> 251]\<rparr>"

definition reading_gas_only :: "rat station_data" where
  "reading_gas_only =
     \<lparr>rss_timestamp = 10800 + 19800, rss_lat = None, rss_lon = None,
      rss_pollutants = [''NO2'' \<mapsto> 80, ''CO'' \<mapsto> 2]\<rparr>"

section \<open>The wind backfill job: backfill\_wind.py\<close>

subsection \<open>Rows of wind\_stations.csv\<close>

text \<open>
  The columns built by \<open>fetch_station_wind\<close>, lines 89-101; a measurement the API
  leaves out is \<open>None\<close>. Timestamps are seconds.
\<close>

record wind_row =
  wr_timestamp :: int
  wr_station_id :: int
  wr_station_name :: string
  wr_lat :: rat
  wr_lon :: rat
  wr_wind_temp :: "rat option"
  wr_wind_speed_10m :: "rat option"
  wr_wind_dir_10m :: "rat option"
  wr_wind_speed_80m :: "rat option"
  wr_wind_dir_80m :: "rat option"
  wr_blh :: "rat option"

subsection \<open>Combining existing and fetched rows\<close>

text \<open>The subset of line 197: \<open>['timestamp', 'station_id']\<close>.\<close>

definition dedup_key :: "wind_row \<Rightarrow> int \<times> int" where
  "dedup_key r = (wr_timestamp r, wr_station_id r)"

text \<open>
  \<open>drop_duplicates(subset=..., keep='last')\<close>: a row is dropped when a later row has its
  key; the rows kept stay in their order.
\<close>

fun drop_duplicates_last :: "wind_row list \<Rightarrow> wind_row list" where
  "drop_duplicates_last [] = []"
| "drop_duplicates_last (r # rs) =
     (if dedup_key r \<in> set (map dedup_key rs) then drop_duplicates_last rs
      else r # drop_duplicates_last rs)"

text \<open>The sort of line 198, \<open>sort_values(['station_id', 'timestamp'])\<close>, lexicographic.\<close>

definition sort_key_of :: "wind_row \<Rightarrow> int \<times> int" where
  "sort_key_of r = (wr_station_id r, wr_timestamp r)"

text \<open>Lines 196-198: the table that line 201 saves.\<close>

definition combine_wind :: "wind_row list \<Rightarrow> wind_row list \<Rightarrow> wind_row list" where
  "combine_wind existing_df new_df =
     sort_key sort_key_of (drop_duplicates_last (existing_df @ new_df))"

text \<open>The last row of a table with a given key, if any.\<close>

definition last_with_key :: "int \<times> int \<Rightarrow> wind_row list \<Rightarrow> wind_row option" where
  "last_with_key k rows = List.find (\<lambda>r. dedup_key r = k) (rev rows)"

subsection \<open>The entry point\<close>

text \<open>
  The names bound at module level when \<open>main\<close> runs: the imports of lines 10-14, the
  constants of lines 17-34 and the three functions of lines 37, 61 and 110. A name that
  is neither local nor among these nor a Python builtin raises NameError when read.
\<close>

definition module_names :: "string list" where
  "module_names =
     [''pd'', ''requests'', ''time'', ''datetime'', ''timedelta'', ''os'',
      ''ARCHIVE_API'', ''FORECAST_API'', ''HOURLY_VARS'',
      ''SCRIPT_DIR'', ''STATIONS_PATH'', ''WIND_STATIONS_PATH'',
      ''get_station_timestamps'', ''fetch_station_wind'', ''main'']"

definition load_global :: "string \<Rightarrow> exn + unit" where
  "load_global name = (if name \<in> set module_names then Inr () else Inl (NameError name))"

text \<open>
  The files \<open>main\<close> reads: the stations metadata (\<open>None\<close> when the file does not
  exist) and the rows of wind\_stations.csv (\<open>None\<close> when that file does not exist).
\<close>

record backfill_files =
  stations_metadata :: "station_row list option"
  wind_stations :: "wind_row list option"

text \<open>
  \<open>get_station_timestamps\<close>, lines 37-58: the greatest timestamp of each station and
  of the whole table, or nothing for a missing or empty table.
\<close>

definition get_station_timestamps :: "backfill_files \<Rightarrow> ((int \<times> int) list \<times> int) option" where
  "get_station_timestamps files =
     (case wind_stations files of
        None \<Rightarrow> None
      | Some [] \<Rightarrow> None
      | Some (r # rs) \<Rightarrow>
          Some (map (\<lambda>sid. (sid, Max (set (map wr_timestamp
                                 (filter (\<lambda>x. wr_station_id x = sid) (r # rs))))))
                  (sort (remdups (map wr_station_id (r # rs)))),
                Max (set (map wr_timestamp (r # rs)))))"

text \<open>
  \<open>main\<close>, lines 110-124: the check of the stations file, its load, and the call
  \<open>get_last_timestamp()\<close> of line 124, whose name is read from the module. What
  follows line 124 runs only when that call returns.
\<close>

datatype main_progress = StationsFileMissing | LastTimestampCallReturned

definition main :: "backfill_files \<Rightarrow> exn + main_progress" where
  "main files =
     (case stations_metadata files of
        None \<Rightarrow> Inr StationsFileMissing
      | Some stations \<Rightarrow>
          (case load_global ''get_last_timestamp'' of
             Inl e \<Rightarrow> Inl e
           | Inr u \<Rightarrow> Inr LastTimestampCallReturned))"

text \<open>Existing and fetched rows that share a key, and files for one run of the job.\<close>

definition wind_row_of :: "int \<Rightarrow> int \<Rightarrow> rat \<Rightarrow> wind_row" where
  "wind_row_of ts sid speed =
     \<lparr>wr_timestamp = ts, wr_station_id = sid, wr_station_name = ''Anand Vihar'',
      wr_lat = 2865 / 100, wr_lon = 7732 / 100, wr_wind_temp = Some 21,
      wr_wind_speed_10m = Some speed, wr_wind_dir_10m = Some 114, wr_wind_speed_80m = None,
      wr_wind_dir_80m = None, wr_blh = Some 270\<rparr>"

definition example_existing :: "wind_row list" where
  "example_existing = [wind_row_of 3600 235 1, wind_row_of 7200 235 2, wind_row_of 3600 240 3]"

definition example_fetched :: "wind_row list" where
  "example_fetched = [wind_row_of 7200 235 5, wind_row_of 10800 235 6, wind_row_of 7200 235 7]"

definition example_files :: backfill_files where
  "example_files = \<lparr>stations_metadata = Some example_stations, wind_stations = Some example_existing\<rparr>"

section \<open>What the feed parser may keep\<close>

text \<open>
  The conditions under which an entry may appear in the result of \<open>parse_rss_feed\<close>:
  a Station element gives the entry of \<open>station_id\<close> with \<open>timestamp\<close> when it has that
  non-empty id and a non-empty lastupdate that parses to the timestamp; a
  Pollutant\_Index element gives the reading \<open>v\<close> of \<open>poll_id\<close> when it has that
  non-empty id and an Hourly\_sub\_index that is not empty, not NA and parses to \<open>v\<close>.
\<close>

definition station_gives :: "(string \<Rightarrow> exn + int) \<Rightarrow> xml \<Rightarrow> string \<Rightarrow> int \<Rightarrow> bool" where
  "station_gives strptime station station_id timestamp =
     (station_id \<noteq> [] \<and> xml_get station ''id'' = Some station_id \<and>
      (case xml_get station ''lastupdate'' of
         None \<Rightarrow> False
       | Some lastupdate \<Rightarrow> lastupdate \<noteq> [] \<and> strptime lastupdate = Inr timestamp))"

definition pollutant_gives :: "(string \<Rightarrow> exn + 'f) \<Rightarrow> xml \<Rightarrow> string \<Rightarrow> 'f \<Rightarrow> bool" where
  "pollutant_gives float_of pollutant poll_id v =
     (poll_id \<noteq> [] \<and> xml_get pollutant ''id'' = Some poll_id \<and>
      (case xml_get pollutant ''Hourly_sub_index'' of
         None \<Rightarrow> False
       | Some hourly_value \<Rightarrow>
           hourly_value \<noteq> [] \<and> hourly_value \<noteq> ''NA'' \<and> float_of hourly_value = Inr v))"

text \<open>
  A feed to run the parser on. The three library functions are given on the strings of
  this feed only: the document text and its tree, two timestamps and two numbers.

  \<open>ET.fromstring\<close> encodes a \<open>str\<close> to UTF-8 before it parses, and that encoding
  raises UnicodeEncodeError on a lone surrogate code point, which a Python \<open>str\<close> can
  hold. Text beyond ASCII is written here as its UTF-8 bytes, and a lone surrogate in
  the same three-byte form: the byte 0xED, a byte from 0xA0 to 0xBF and one more byte.
  \<open>surrogate_content\<close> is the \<open>str\<close> of the element \<open>a\<close> whose text is the code point
  U+D800.
\<close>

fun has_surrogate :: "string \<Rightarrow> bool" where
  "has_surrogate (a # b # cs) =
     (((of_char a :: nat) = 237 \<and> 160 \<le> (of_char b :: nat) \<and> (of_char b :: nat) \<le> 191) \<or>
      has_surrogate (b # cs))"
| "has_surrogate cs = False"

definition surrogate_content :: string where
  "surrogate_content = ''<a>'' @ [CHR 0xED, CHR 0xA0, CHR 0x80] @ ''</a>''"

definition example_document :: xml where
  "example_document =
     Element ''AqIndex'' []
       [Element ''Country'' [(''id'', ''India'')]
          [Element ''Station''
             [(''id'', ''Anand Vihar, Delhi - DPCC''), (''lastupdate'', ''07-01-2026 22:00:00''),
              (''latitude'', ''28.65''), (''longitude'', ''77.32'')]
             [Element ''Pollutant_Index'' [(''id'', ''PM2.5''), (''Hourly_sub_index'', ''153'')] [],
              Element ''Pollutant_Index'' [(''id'', ''PM10''), (''Hourly_sub_index'', ''NA'')] [],
              Element ''Pollutant_Index'' [(''id'', ''NO2''), (''Hourly_sub_index'', ''n/a'')] [],
              Element ''Pollutant_Index'' [(''id'', ''CO''), (''Hourly_sub_index'', ''88.5'')] [],
              Element ''Air_Quality_Index'' [(''Value'', ''153'')] []],
           Element ''Station'' [(''id'', ''Rohini, Delhi - DPCC''), (''lastupdate'', ''yesterday'')] [],
           Element ''Station'' [(''lastupdate'', ''07-01-2026 22:00:00'')] []]]"

definition example_fromstring :: "string \<Rightarrow> exn + xml" where
  "example_fromstring s =
     (if has_surrogate s then Inl UnicodeEncodeError
      else if s = ''<AqIndex>...</AqIndex>'' then Inr example_document
      else Inl ParseError)"

definition example_strptime :: "string \<Rightarrow> exn + int" where
  "example_strptime s =
     (if s = ''07-01-2026 22:00:00'' then Inr 1767823200
      else if s = ''08-01-2026 22:00:00'' then Inr 1767909600
      else Inl ValueError)"

definition example_float :: "string \<Rightarrow> exn + rat" where
  "example_float s =
     (if s = ''153'' then Inr 153 else if s = ''88.5'' then Inr (177 / 2) else Inl ValueError)"

section \<open>Properties of the validation suite\<close>

lemma check_expected_high_iff:
  "check_expected_high cs es passed \<longleftrightarrow> passed \<and> (\<forall>e \<in> set es. is_elevated cs e)"
  by (induction es arbitrary: passed) auto

lemma check_expected_low_iff:
  "check_expected_low cs es passed \<longleftrightarrow> passed \<and> (\<forall>e \<in> set es. is_low cs e)"
  by (induction es arbitrary: passed) auto

lemma is_elevated_raw:
  "is_elevated cs e \<longleftrightarrow>
     (\<exists>d. map_of cs e = Some d \<and>
        (sd_level d = Some ''High'' \<or> sd_level d = Some ''Medium'' \<or>
         (\<exists>p. sd_percentage d = Some p \<and> 15 \<le> p)))"
  by (auto simp: is_elevated_def get_level_def get_percentage_def split: option.splits)

lemma is_low_raw:
  "is_low cs e \<longleftrightarrow> (\<forall>d p. map_of cs e = Some d \<and> sd_percentage d = Some p \<longrightarrow> p \<le> 12)"
  by (auto simp: is_low_def get_percentage_def split: option.splits)

lemma run_test_True_iff:
  "run_test api tc = Inr True \<longleftrightarrow>
     (\<exists>result. api (payload_of tc) = Some result \<and>
        (\<exists>ss. sorted_sources (result_contributions result) = Inr ss \<and> display_loop ss = Inr ()) \<and>
        (\<forall>e \<in> set (expected_high tc). is_elevated (result_contributions result) e) \<and>
        (\<forall>e \<in> set (expected_low tc). is_low (result_contributions result) e))"
  by (auto simp: run_test_def Let_def check_expected_high_iff check_expected_low_iff
           split: option.splits sum.splits)

lemma run_medium: "run_test medium_api test_case_1 = Inr True"
  by (simp add: run_test_def medium_api_def test_case_1_def payload_of_def result_contributions_def
      medium_contributions_def sorted_sources_def display_row_def is_elevated_def is_low_def
      get_level_def get_percentage_def)

text \<open>
  Claim C3. The suite takes a source as elevated exactly when its reported level is High
  or Medium or its percentage is at least 15 (an absent source or field reads as level
  empty and percentage 0), and as low exactly when its percentage is at most 12; a run
  of \<open>run_test\<close> returns True only when the request was answered, every source of
  \<open>expected_high\<close> is elevated and every source of \<open>expected_low\<close> is low.
\<close>

theorem run_test_pass_criteria:
  "(is_elevated cs e \<longleftrightarrow>
      (\<exists>d. map_of cs e = Some d \<and>
         (sd_level d = Some ''High'' \<or> sd_level d = Some ''Medium'' \<or>
          (\<exists>p. sd_percentage d = Some p \<and> 15 \<le> p)))) \<and>
   (is_low cs e \<longleftrightarrow>
      (\<forall>d p. map_of cs e = Some d \<and> sd_percentage d = Some p \<longrightarrow> p \<le> 12)) \<and>
   (run_test api tc = Inr True \<longrightarrow>
      (\<exists>result. api (payload_of tc) = Some result \<and>
         (\<forall>x \<in> set (expected_high tc). is_elevated (result_contributions result) x) \<and>
         (\<forall>x \<in> set (expected_low tc). is_low (result_contributions result) x)))"
  using is_elevated_raw [of cs e] is_low_raw [of cs e] run_test_True_iff [of api tc] by blast

theorem run_test_pass_criteria_witness:
  "run_test medium_api test_case_1 = Inr True \<and>
   (\<exists>result. medium_api (payload_of test_case_1) = Some result \<and>
      (\<forall>x \<in> set (expected_high test_case_1). is_elevated (result_contributions result) x) \<and>
      (\<forall>x \<in> set (expected_low test_case_1). is_low (result_contributions result) x))"
  using run_test_pass_criteria [of medium_contributions "''secondary_aerosols''" medium_api test_case_1]
    run_medium by blast

text \<open>
  Claim C4, as amended. For every test case that expects the trapping-driven source
  \<open>secondary_aerosols\<close> to be high, a passing run implies that the returned level of
  that source is High or Medium, or that its returned percentage is at least 15. The
  level need not be High: on the request of test case 1 (Feb 27 2025 09:00, blh 105) a
  response reporting the source at 25 percent, level Medium, passes.
\<close>

theorem expected_high_only_if:
  assumes "''secondary_aerosols'' \<in> set (expected_high tc)"
    and "run_test api tc = Inr True"
  shows "\<exists>result d. api (payload_of tc) = Some result \<and>
           map_of (result_contributions result) ''secondary_aerosols'' = Some d \<and>
           (sd_level d = Some ''High'' \<or> sd_level d = Some ''Medium'' \<or>
            (\<exists>p. sd_percentage d = Some p \<and> 15 \<le> p))"
proof -
  from assms(2) obtain result where r: "api (payload_of tc) = Some result"
    and h: "\<forall>e \<in> set (expected_high tc). is_elevated (result_contributions result) e"
    unfolding run_test_True_iff by blast
  from h assms(1) have "is_elevated (result_contributions result) ''secondary_aerosols''"
    by blast
  with r show ?thesis unfolding is_elevated_raw by blast
qed

theorem expected_high_only_if_witness:
  "''secondary_aerosols'' \<in> set (expected_high test_case_1) \<and>
   run_test medium_api test_case_1 = Inr True \<and>
   (\<exists>result d. medium_api (payload_of test_case_1) = Some result \<and>
      map_of (result_contributions result) ''secondary_aerosols'' = Some d \<and>
      (sd_level d = Some ''High'' \<or> sd_level d = Some ''Medium'' \<or>
       (\<exists>p. sd_percentage d = Some p \<and> 15 \<le> p)))"
proof -
  have m: "''secondary_aerosols'' \<in> set (expected_high test_case_1)"
    by (simp add: test_case_1_def)
  show ?thesis
    using m run_medium expected_high_only_if [OF m run_medium] by blast
qed

theorem level_high_counterexample:
  "''secondary_aerosols'' \<in> set (expected_high test_case_1) \<and>
   run_test medium_api test_case_1 = Inr True \<and>
   is_elevated medium_contributions ''secondary_aerosols'' \<and>
   get_level medium_contributions ''secondary_aerosols'' \<noteq> ''High''"
  by (simp add: run_test_def medium_api_def test_case_1_def payload_of_def result_contributions_def
      medium_contributions_def sorted_sources_def display_row_def is_elevated_def is_low_def
      get_level_def get_percentage_def)

section \<open>Properties of the attribution engine\<close>

lemma sum_list_renormalize:
  "sum_list (map (\<lambda>x. 100 * f x / (t::rat)) xs) = 100 * sum_list (map f xs) / t"
  by (induction xs) (simp_all add: add_divide_distrib distrib_left)

lemma aggregate_total:
  assumes "aggregate xs = Inr resp"
  shows "response_total resp = 100"
proof -
  let ?t = "sum_list (map weighted xs)"
  from assms have nz: "?t \<noteq> 0"
    and resp: "map (\<lambda>x. cr_percentage (snd x)) resp = map (\<lambda>x. 100 * weighted x / ?t) xs"
    by (auto simp: aggregate_def Let_def split: if_splits)
  have "response_total resp = 100 * ?t / ?t"
    unfolding response_total_def resp by (rule sum_list_renormalize)
  with nz show ?thesis by simp
qed

lemma aggregate_keys:
  "aggregate xs = Inr resp \<Longrightarrow> map fst resp = map (\<lambda>x. src_id (fst x)) xs"
  by (auto simp: aggregate_def Let_def split: if_splits)

lemma score_Inr:
  assumes "score lo hi rule catalog req = Inr resp"
  shows "distinct (map fst resp) \<and> response_total resp = 100"
proof -
  from assms obtain r where cat: "load_catalog catalog = Inr catalog"
    and agg: "aggregate (map (\<lambda>s. (s, clamp_factor lo hi (fst (rule r s)), snd (rule r s))) catalog) = Inr resp"
    by (auto simp: score_def load_catalog_def split: sum.splits if_splits)
  from cat have d: "distinct (map src_id catalog)"
    by (auto simp: load_catalog_def split: if_splits)
  from aggregate_keys [OF agg] have "map fst resp = map src_id catalog"
    by (simp add: comp_def)
  with d aggregate_total [OF agg] show ?thesis by simp
qed

lemma weighted_lower:
  assumes "\<forall>s \<in> set srcs. 0 \<le> prior_percentage s" and "0 < lo"
  shows "lo * sum_list (map prior_percentage srcs)
           \<le> sum_list (map weighted (map (\<lambda>s. (s, clamp_factor lo hi (f s), g s)) srcs))"
  using assms(1)
proof (induction srcs)
  case Nil
  then show ?case by simp
next
  case (Cons s srcs)
  let ?rest = "sum_list (map weighted (map (\<lambda>s. (s, clamp_factor lo hi (f s), g s)) srcs))"
  have w: "weighted (s, clamp_factor lo hi (f s), g s) = prior_percentage s * clamp_factor lo hi (f s)"
    by (simp add: weighted_def)
  have "lo \<le> clamp_factor lo hi (f s)" by (simp add: clamp_factor_def)
  moreover from Cons.prems have "0 \<le> prior_percentage s" by simp
  ultimately have a: "prior_percentage s * lo \<le> prior_percentage s * clamp_factor lo hi (f s)"
    by (rule mult_left_mono)
  from Cons have b: "lo * sum_list (map prior_percentage srcs) \<le> ?rest"
    by simp
  have "lo * sum_list (map prior_percentage (s # srcs))
          = prior_percentage s * lo + lo * sum_list (map prior_percentage srcs)"
    by (simp add: distrib_left mult.commute)
  also from a b have "\<dots> \<le> prior_percentage s * clamp_factor lo hi (f s) + ?rest"
    by (rule add_mono)
  also have "\<dots> = sum_list (map weighted (map (\<lambda>s. (s, clamp_factor lo hi (f s), g s)) (s # srcs)))"
    by (simp add: w)
  finally show ?case .
qed

lemma score_succeeds:
  assumes lo: "0 < lo"
    and pri: "\<forall>s \<in> set catalog. 0 \<le> prior_percentage s"
    and cat: "load_catalog catalog = Inr catalog"
    and req: "normalize_request req = Inr r"
  shows "\<exists>resp. score lo hi rule catalog req = Inr resp"
proof -
  let ?xs = "map (\<lambda>s. (s, clamp_factor lo hi (fst (rule r s)), snd (rule r s))) catalog"
  from cat have "\<bar>sum_list (map prior_percentage catalog) - 100\<bar> \<le> 1 / 100"
    by (auto simp: load_catalog_def tolerance_def split: if_splits)
  then have "0 < sum_list (map prior_percentage catalog)" by linarith
  with lo have "0 < lo * sum_list (map prior_percentage catalog)" by simp
  also have "\<dots> \<le> sum_list (map weighted ?xs)"
    using weighted_lower [OF pri lo] .
  finally have "sum_list (map weighted ?xs) \<noteq> 0" by simp
  then show ?thesis
    using cat req by (simp add: score_def aggregate_def Let_def)
qed

lemma cat_ok: "load_catalog example_catalog = Inr example_catalog"
  by (simp add: load_catalog_def example_catalog_def tolerance_def)

lemma req_ok: "normalize_request (payload_of test_case_12) = Inr (payload_of test_case_12)"
  by (simp add: normalize_request_def payload_of_def test_case_12_def wrap360_def floor_eq_iff)

text \<open>
  Claim C1. Whenever the engine answers a request, the source ids of the contributions
  mapping are pairwise distinct and the percentages of all its sources sum to 100 within
  0.01, whatever the readings, meteorology, fire count and rules; and it does answer
  every request that passes validation, for a loaded catalog with non-negative priors
  and a positive floor of the modulation factor.
\<close>

theorem percentages_sum_to_100:
  "(score lo hi rule catalog req = Inr resp \<longrightarrow>
      distinct (map fst resp) \<and> \<bar>response_total resp - 100\<bar> \<le> 1 / 100) \<and>
   (0 < lo \<and> (\<forall>s \<in> set catalog. 0 \<le> prior_percentage s) \<and>
    load_catalog catalog = Inr catalog \<and> normalize_request req = Inr r \<longrightarrow>
      (\<exists>resp'. score lo hi rule catalog req = Inr resp'))"
  using score_Inr [of lo hi rule catalog req resp] score_succeeds [of lo catalog req r hi rule]
  by auto

theorem percentages_sum_to_100_witness:
  "0 < (1 / 10 :: rat) \<and> list_all (\<lambda>s. 0 \<le> prior_percentage s) example_catalog \<and>
   load_catalog example_catalog = Inr example_catalog \<and>
   normalize_request (payload_of test_case_12) = Inr (payload_of test_case_12) \<and>
   (\<exists>resp. score (1 / 10) 3 example_rule example_catalog (payload_of test_case_12) = Inr resp \<and>
      distinct (map fst resp) \<and> \<bar>response_total resp - 100\<bar> \<le> 1 / 100)"
proof -
  have pri: "\<forall>s \<in> set example_catalog. 0 \<le> prior_percentage s"
    by (simp add: example_catalog_def)
  have lo: "0 < (1 / 10 :: rat)" by simp
  from lo pri cat_ok req_ok
    percentages_sum_to_100 [of "1 / 10" 3 example_rule example_catalog "payload_of test_case_12"
      "[]" "payload_of test_case_12"]
  obtain resp where r: "score (1 / 10) 3 example_rule example_catalog (payload_of test_case_12) = Inr resp"
    by blast
  with percentages_sum_to_100 [of "1 / 10" 3 example_rule example_catalog "payload_of test_case_12"
      resp "payload_of test_case_12"]
  have "distinct (map fst resp) \<and> \<bar>response_total resp - 100\<bar> \<le> 1 / 100"
    by blast
  with lo pri cat_ok req_ok r show ?thesis unfolding list_all_iff by blast
qed

section \<open>Properties of the wind backfill job\<close>

lemma find_append_split:
  "List.find P (xs @ ys) = (case List.find P xs of Some x \<Rightarrow> Some x | None \<Rightarrow> List.find P ys)"
  by (induction xs) auto

lemma last_with_key_Cons:
  "last_with_key k (r # rs) =
     (case last_with_key k rs of
        Some x \<Rightarrow> Some x
      | None \<Rightarrow> if dedup_key r = k then Some r else None)"
  by (simp add: last_with_key_def find_append_split split: option.splits)

lemma last_with_key_append:
  "last_with_key k (xs @ ys) =
     (case last_with_key k ys of Some x \<Rightarrow> Some x | None \<Rightarrow> last_with_key k xs)"
  by (simp add: last_with_key_def find_append_split split: option.splits)

lemma find_Some_mem: "List.find P xs = Some x \<Longrightarrow> x \<in> set xs \<and> P x"
  by (induction xs) (auto split: if_splits)

lemma last_with_key_mem: "last_with_key k rs = Some r \<Longrightarrow> r \<in> set rs \<and> dedup_key r = k"
  using find_Some_mem [of "\<lambda>r. dedup_key r = k" "rev rs" r] by (simp add: last_with_key_def)

lemma last_with_key_None: "last_with_key k rs = None \<longleftrightarrow> k \<notin> set (map dedup_key rs)"
  by (auto simp: last_with_key_def find_None_iff)

lemma set_drop_duplicates_last: "set (drop_duplicates_last rs) \<subseteq> set rs"
  by (induction rs) auto

lemma keys_drop_duplicates_last:
  "set (map dedup_key (drop_duplicates_last rs)) = set (map dedup_key rs)"
  by (induction rs) auto

lemma distinct_drop_duplicates_last: "distinct (map dedup_key (drop_duplicates_last rs))"
proof (induction rs)
  case Nil
  then show ?case by simp
next
  case (Cons r rs)
  show ?case
  proof (cases "dedup_key r \<in> set (map dedup_key rs)")
    case True
    with Cons show ?thesis by simp
  next
    case False
    then have "dedup_key r \<notin> set (map dedup_key (drop_duplicates_last rs))"
      unfolding keys_drop_duplicates_last .
    with False Cons show ?thesis by simp
  qed
qed

lemma filter_drop_duplicates_last:
  "filter (\<lambda>x. dedup_key x = k) (drop_duplicates_last rs) =
     (case last_with_key k rs of None \<Rightarrow> [] | Some r \<Rightarrow> [r])"
proof (induction rs)
  case Nil
  then show ?case by (simp add: last_with_key_def)
next
  case (Cons r rs)
  show ?case
  proof (cases "dedup_key r \<in> set (map dedup_key rs)")
    case True
    then have "last_with_key (dedup_key r) rs \<noteq> None"
      by (simp add: last_with_key_None)
    with True Cons show ?thesis
      by (auto simp: last_with_key_Cons split: option.splits)
  next
    case False
    then have "last_with_key (dedup_key r) rs = None"
      by (simp add: last_with_key_None)
    with False Cons show ?thesis
      by (auto simp: last_with_key_Cons split: option.splits)
  qed
qed

lemma distinct_combine_wind: "distinct (map dedup_key (combine_wind existing_df new_df))"
proof -
  have "mset (map dedup_key (combine_wind existing_df new_df)) =
        mset (map dedup_key (drop_duplicates_last (existing_df @ new_df)))"
    by (simp add: combine_wind_def)
  then show ?thesis
    using distinct_drop_duplicates_last [of "existing_df @ new_df"]
    by (metis mset_eq_imp_distinct_iff)
qed

lemma filter_combine_wind:
  "filter (\<lambda>x. dedup_key x = k) (combine_wind existing_df new_df) =
     (case last_with_key k new_df of
        Some r \<Rightarrow> [r]
      | None \<Rightarrow> (case last_with_key k existing_df of None \<Rightarrow> [] | Some r \<Rightarrow> [r]))"
  by (simp add: combine_wind_def filter_sort filter_drop_duplicates_last last_with_key_append
      split: option.splits)

text \<open>
  Claim C8. The table that the job saves after combining the existing rows with the
  fetched rows has at most one row for each pair of timestamp and station id, and where
  an existing row and a fetched row share that pair, the one row saved for it is a
  fetched row, the last of the fetched rows with that pair.
\<close>

theorem combine_wind_deduplicated:
  "distinct (map dedup_key (combine_wind existing_df new_df)) \<and>
   (\<forall>e \<in> set existing_df. \<forall>n \<in> set new_df. dedup_key e = dedup_key n \<longrightarrow>
      (\<exists>r. last_with_key (dedup_key n) new_df = Some r \<and> r \<in> set new_df \<and>
         filter (\<lambda>x. dedup_key x = dedup_key n) (combine_wind existing_df new_df) = [r]))"
proof (intro conjI ballI impI)
  show "distinct (map dedup_key (combine_wind existing_df new_df))"
    by (rule distinct_combine_wind)
next
  fix e n
  assume n: "n \<in> set new_df"
  then have "last_with_key (dedup_key n) new_df \<noteq> None"
    by (simp add: last_with_key_None)
  then obtain r where r: "last_with_key (dedup_key n) new_df = Some r" by blast
  then have "r \<in> set new_df"
    by (simp add: last_with_key_mem)
  with r show "\<exists>r. last_with_key (dedup_key n) new_df = Some r \<and> r \<in> set new_df \<and>
         filter (\<lambda>x. dedup_key x = dedup_key n) (combine_wind existing_df new_df) = [r]"
    by (simp add: filter_combine_wind)
qed

theorem combine_wind_deduplicated_witness:
  "wind_row_of 7200 235 2 \<in> set example_existing \<and>
   wind_row_of 7200 235 5 \<in> set example_fetched \<and>
   dedup_key (wind_row_of 7200 235 2) = dedup_key (wind_row_of 7200 235 5) \<and>
   filter (\<lambda>x. dedup_key x = dedup_key (wind_row_of 7200 235 5))
     (combine_wind example_existing example_fetched) = [wind_row_of 7200 235 7]"
proof -
  have e: "wind_row_of 7200 235 2 \<in> set example_existing"
    by (simp add: example_existing_def)
  have n: "wind_row_of 7200 235 5 \<in> set example_fetched"
    by (simp add: example_fetched_def)
  have k: "dedup_key (wind_row_of 7200 235 2) = dedup_key (wind_row_of 7200 235 5)"
    by (simp add: dedup_key_def wind_row_of_def)
  have l: "last_with_key (dedup_key (wind_row_of 7200 235 5)) example_fetched
             = Some (wind_row_of 7200 235 7)"
    by (simp add: last_with_key_def example_fetched_def dedup_key_def wind_row_of_def)
  from combine_wind_deduplicated [of example_existing example_fetched] e n k l
  have "filter (\<lambda>x. dedup_key x = dedup_key (wind_row_of 7200 235 5))
          (combine_wind example_existing example_fetched) = [wind_row_of 7200 235 7]"
    by fastforce
  with e n k show ?thesis by blast
qed

text \<open>
  Claim C6. With the stations metadata file present and wind\_stations.csv holding a
  timestamped row, \<open>main\<close> does not reach the fetch phase: the call of line 124 names
  \<open>get_last_timestamp\<close>, which the module does not define, and NameError leaves
  \<open>main\<close>. The function the module does define, \<open>get_station_timestamps\<close>, finds
  the last timestamps of the same files.
\<close>

theorem main_raises_NameError:
  "main example_files = Inl (NameError ''get_last_timestamp'') \<and>
   get_station_timestamps example_files = Some ([(235, 7200), (240, 3600)], 7200)"
  by (simp add: main_def load_global_def module_names_def get_station_timestamps_def
      example_files_def example_existing_def wind_row_of_def)

section \<open>Properties of the live feed ingester\<close>

lemma find_loop_exact:
  assumes "\<exists>r \<in> set rows. normalize_station_name (st_station_name r) = n"
  shows "\<exists>r. find_loop ratio n bm bs rows = Some r \<and> r \<in> set rows \<and>
           normalize_station_name (st_station_name r) = n"
  using assms
proof (induction rows arbitrary: bm bs)
  case Nil
  then show ?case by simp
next
  case (Cons row rows)
  show ?case
  proof (cases "n = normalize_station_name (st_station_name row)")
    case True
    then show ?thesis by simp
  next
    case False
    with Cons.prems have "\<exists>r \<in> set rows. normalize_station_name (st_station_name r) = n"
      by auto
    then have ih: "\<And>bm' bs'. \<exists>r. find_loop ratio n bm' bs' rows = Some r \<and> r \<in> set rows \<and>
           normalize_station_name (st_station_name r) = n"
      by (rule Cons.IH)
    from False have
      "find_loop ratio n bm bs (row # rows) =
         find_loop ratio n (Some row) (ratio n (normalize_station_name (st_station_name row))) rows \<or>
       find_loop ratio n bm bs (row # rows) = find_loop ratio n bm bs rows"
      by (simp add: Let_def)
    with ih [of "Some row" "ratio n (normalize_station_name (st_station_name row))"] ih [of bm bs]
    show ?thesis by auto
  qed
qed

lemma find_loop_none:
  assumes "\<forall>r \<in> set rows. normalize_station_name (st_station_name r) \<noteq> n"
    and "\<forall>r \<in> set rows. \<not> (ratio n (normalize_station_name (st_station_name r)) > bs \<and>
            ratio n (normalize_station_name (st_station_name r)) > 6 / 10)"
  shows "find_loop ratio n bm bs rows = bm"
  using assms by (induction rows arbitrary: bm bs) (auto simp: Let_def)

lemma find_loop_best:
  assumes "\<forall>r \<in> set rows. normalize_station_name (st_station_name r) \<noteq> n"
    and "\<exists>r \<in> set rows. ratio n (normalize_station_name (st_station_name r)) > bs \<and>
            ratio n (normalize_station_name (st_station_name r)) > 6 / 10"
  shows "\<exists>r. find_loop ratio n bm bs rows = Some r \<and> r \<in> set rows \<and>
           ratio n (normalize_station_name (st_station_name r)) > bs \<and>
           ratio n (normalize_station_name (st_station_name r)) > 6 / 10 \<and>
           (\<forall>r' \<in> set rows. ratio n (normalize_station_name (st_station_name r'))
                               \<le> ratio n (normalize_station_name (st_station_name r)))"
  using assms
proof (induction rows arbitrary: bm bs)
  case Nil
  then show ?case by simp
next
  case (Cons row rows)
  let ?sc = "\<lambda>r. ratio n (normalize_station_name (st_station_name r))"
  from Cons.prems(1) have ne: "n \<noteq> normalize_station_name (st_station_name row)"
    and nes: "\<forall>r \<in> set rows. normalize_station_name (st_station_name r) \<noteq> n"
    by auto
  show ?case
  proof (cases "?sc row > bs \<and> ?sc row > 6 / 10")
    case True
    then have step: "find_loop ratio n bm bs (row # rows) = find_loop ratio n (Some row) (?sc row) rows"
      using ne by (simp add: Let_def)
    show ?thesis
    proof (cases "\<exists>r \<in> set rows. ?sc r > ?sc row \<and> ?sc r > 6 / 10")
      case better: True
      from Cons.IH [where bs = "?sc row" and bm = "Some row", OF nes better] obtain r where
        r: "find_loop ratio n (Some row) (?sc row) rows = Some r" "r \<in> set rows"
           "?sc r > ?sc row" "?sc r > 6 / 10" "\<forall>r' \<in> set rows. ?sc r' \<le> ?sc r"
        by blast
      with True step show ?thesis by auto
    next
      case nobetter: False
      then have nb: "\<forall>r \<in> set rows. \<not> (?sc r > ?sc row \<and> ?sc r > 6 / 10)"
        by blast
      have "find_loop ratio n (Some row) (?sc row) rows = Some row"
        using nes nb by (rule find_loop_none)
      moreover have "\<forall>r' \<in> set rows. ?sc r' \<le> ?sc row"
      proof
        fix r' assume "r' \<in> set rows"
        with nb have "\<not> (?sc r' > ?sc row \<and> ?sc r' > 6 / 10)" by blast
        with True show "?sc r' \<le> ?sc row" by linarith
      qed
      ultimately show ?thesis using True step by auto
    qed
  next
    case False
    then have step: "find_loop ratio n bm bs (row # rows) = find_loop ratio n bm bs rows"
      using ne by (auto simp: Let_def)
    from False Cons.prems(2) have ex: "\<exists>r \<in> set rows. ?sc r > bs \<and> ?sc r > 6 / 10"
      by auto
    from Cons.IH [where bs = bs and bm = bm, OF nes ex] obtain r where
      r: "find_loop ratio n bm bs rows = Some r" "r \<in> set rows"
         "?sc r > bs" "?sc r > 6 / 10" "\<forall>r' \<in> set rows. ?sc r' \<le> ?sc r"
      by blast
    from False r(3,4) have "?sc row \<le> ?sc r" by linarith
    with r step show ?thesis by auto
  qed
qed

text \<open>
  Claim C5. Whenever a row of the metadata table has the normalized name of the feed's
  station, \<open>find_matching_station\<close> returns such a row, whatever the similarity of the
  other rows. Otherwise it returns a row of greatest similarity ratio when some row's
  ratio exceeds 0.6, and that row's ratio exceeds 0.6; it returns no row when no ratio
  exceeds 0.6.
\<close>

theorem find_matching_station_result:
  "((\<exists>r \<in> set our_stations.
        normalize_station_name (st_station_name r) = normalize_station_name rss_name) \<longrightarrow>
      (\<exists>r. find_matching_station ratio rss_name our_stations = Some r \<and> r \<in> set our_stations \<and>
         normalize_station_name (st_station_name r) = normalize_station_name rss_name)) \<and>
   ((\<forall>r \<in> set our_stations.
        normalize_station_name (st_station_name r) \<noteq> normalize_station_name rss_name) \<longrightarrow>
      ((\<exists>r \<in> set our_stations.
          ratio (normalize_station_name rss_name) (normalize_station_name (st_station_name r)) > 6 / 10) \<longrightarrow>
        (\<exists>r. find_matching_station ratio rss_name our_stations = Some r \<and> r \<in> set our_stations \<and>
           ratio (normalize_station_name rss_name) (normalize_station_name (st_station_name r)) > 6 / 10 \<and>
           (\<forall>r' \<in> set our_stations.
              ratio (normalize_station_name rss_name) (normalize_station_name (st_station_name r'))
                \<le> ratio (normalize_station_name rss_name) (normalize_station_name (st_station_name r))))) \<and>
      ((\<forall>r \<in> set our_stations.
          \<not> ratio (normalize_station_name rss_name) (normalize_station_name (st_station_name r)) > 6 / 10) \<longrightarrow>
        find_matching_station ratio rss_name our_stations = None))"
proof (intro conjI impI)
  assume "\<exists>r \<in> set our_stations.
        normalize_station_name (st_station_name r) = normalize_station_name rss_name"
  then show "\<exists>r. find_matching_station ratio rss_name our_stations = Some r \<and> r \<in> set our_stations \<and>
         normalize_station_name (st_station_name r) = normalize_station_name rss_name"
    unfolding find_matching_station_def by (rule find_loop_exact)
next
  assume ne: "\<forall>r \<in> set our_stations.
        normalize_station_name (st_station_name r) \<noteq> normalize_station_name rss_name"
    and "\<exists>r \<in> set our_stations.
          ratio (normalize_station_name rss_name) (normalize_station_name (st_station_name r)) > 6 / 10"
  then have "\<exists>r \<in> set our_stations.
      ratio (normalize_station_name rss_name) (normalize_station_name (st_station_name r)) > 0 \<and>
      ratio (normalize_station_name rss_name) (normalize_station_name (st_station_name r)) > 6 / 10"
    by force
  with ne have "\<exists>r. find_loop ratio (normalize_station_name rss_name) None 0 our_stations = Some r \<and>
      r \<in> set our_stations \<and>
      ratio (normalize_station_name rss_name) (normalize_station_name (st_station_name r)) > 0 \<and>
      ratio (normalize_station_name rss_name) (normalize_station_name (st_station_name r)) > 6 / 10 \<and>
      (\<forall>r' \<in> set our_stations.
          ratio (normalize_station_name rss_name) (normalize_station_name (st_station_name r'))
            \<le> ratio (normalize_station_name rss_name) (normalize_station_name (st_station_name r)))"
    by (rule find_loop_best)
  then show "\<exists>r. find_matching_station ratio rss_name our_stations = Some r \<and> r \<in> set our_stations \<and>
           ratio (normalize_station_name rss_name) (normalize_station_name (st_station_name r)) > 6 / 10 \<and>
           (\<forall>r' \<in> set our_stations.
              ratio (normalize_station_name rss_name) (normalize_station_name (st_station_name r'))
                \<le> ratio (normalize_station_name rss_name) (normalize_station_name (st_station_name r)))"
    unfolding find_matching_station_def by blast
next
  assume ne: "\<forall>r \<in> set our_stations.
        normalize_station_name (st_station_name r) \<noteq> normalize_station_name rss_name"
    and "\<forall>r \<in> set our_stations.
          \<not> ratio (normalize_station_name rss_name) (normalize_station_name (st_station_name r)) > 6 / 10"
  then have "\<forall>r \<in> set our_stations.
      \<not> (ratio (normalize_station_name rss_name) (normalize_station_name (st_station_name r)) > 0 \<and>
         ratio (normalize_station_name rss_name) (normalize_station_name (st_station_name r)) > 6 / 10)"
    by blast
  with ne show "find_matching_station ratio rss_name our_stations = None"
    unfolding find_matching_station_def by (rule find_loop_none)
qed

theorem find_matching_station_result_witness:
  "list_ex (\<lambda>r. normalize_station_name (st_station_name r) = normalize_station_name ''Anand Vihar - DPCC'')
     example_stations \<and>
   (\<exists>r. find_matching_station prefix_ratio ''Anand Vihar - DPCC'' example_stations = Some r \<and>
      r \<in> set example_stations \<and>
      normalize_station_name (st_station_name r) = normalize_station_name ''Anand Vihar - DPCC'') \<and>
   list_all (\<lambda>r. normalize_station_name (st_station_name r) \<noteq> normalize_station_name ''Anand Loka'')
     example_stations \<and>
   list_ex (\<lambda>r. prefix_ratio (normalize_station_name ''Anand Loka'')
                  (normalize_station_name (st_station_name r)) > 6 / 10) example_stations \<and>
   (\<exists>r. find_matching_station prefix_ratio ''Anand Loka'' example_stations = Some r \<and>
      r \<in> set example_stations \<and>
      prefix_ratio (normalize_station_name ''Anand Loka'') (normalize_station_name (st_station_name r)) > 6 / 10 \<and>
      (\<forall>r' \<in> set example_stations.
         prefix_ratio (normalize_station_name ''Anand Loka'') (normalize_station_name (st_station_name r'))
           \<le> prefix_ratio (normalize_station_name ''Anand Loka'') (normalize_station_name (st_station_name r))))"
proof -
  have a: "list_ex (\<lambda>r. normalize_station_name (st_station_name r) = normalize_station_name ''Anand Vihar - DPCC'')
     example_stations"
    by code_simp
  have b: "list_all (\<lambda>r. normalize_station_name (st_station_name r) \<noteq> normalize_station_name ''Anand Loka'')
     example_stations"
    by code_simp
  have c: "list_ex (\<lambda>r. prefix_ratio (normalize_station_name ''Anand Loka'')
                  (normalize_station_name (st_station_name r)) > 6 / 10) example_stations"
    by code_simp
  from a find_matching_station_result
    [where our_stations = example_stations and rss_name = "''Anand Vihar - DPCC''" and ratio = prefix_ratio]
  have a': "\<exists>r. find_matching_station prefix_ratio ''Anand Vihar - DPCC'' example_stations = Some r \<and>
      r \<in> set example_stations \<and>
      normalize_station_name (st_station_name r) = normalize_station_name ''Anand Vihar - DPCC''"
    unfolding list_ex_iff by blast
  from b c find_matching_station_result
    [where our_stations = example_stations and rss_name = "''Anand Loka''" and ratio = prefix_ratio]
  have c': "\<exists>r. find_matching_station prefix_ratio ''Anand Loka'' example_stations = Some r \<and>
      r \<in> set example_stations \<and>
      prefix_ratio (normalize_station_name ''Anand Loka'') (normalize_station_name (st_station_name r)) > 6 / 10 \<and>
      (\<forall>r' \<in> set example_stations.
         prefix_ratio (normalize_station_name ''Anand Loka'') (normalize_station_name (st_station_name r'))
           \<le> prefix_ratio (normalize_station_name ''Anand Loka'') (normalize_station_name (st_station_name r)))"
    unfolding list_ex_iff list_all_iff by blast
  from a a' b c c' show ?thesis by blast
qed


lemma map_pollutants_keys:
  "fst ` set (map_pollutants pm pollutants) = {c. \<exists>k. (k, c) \<in> set pm \<and> pollutants k \<noteq> None}"
  by (induction pm pollutants rule: map_pollutants.induct) (auto split: option.splits)

lemma new_row_PM25:
  "''PM25'' \<in> set (map fst (cells (make_new_row rss_data))) \<longleftrightarrow> rss_pollutants rss_data ''PM2.5'' \<noteq> None"
  unfolding make_new_row_def by (simp add: map_pollutants_keys) (simp add: POLLUTANT_MAP_def)

lemma new_row_PM10:
  "''PM10'' \<in> set (map fst (cells (make_new_row rss_data))) \<longleftrightarrow> rss_pollutants rss_data ''PM10'' \<noteq> None"
  unfolding make_new_row_def by (simp add: map_pollutants_keys) (simp add: POLLUTANT_MAP_def)

lemma update_seen:
  assumes "dir (st_filename station_row) = Some (Table df)"
    and "to_local_time (rss_timestamp rss_data) \<in> set (map local_time (df_rows df))"
  shows "update_station_csv dir station_row rss_data = (dir, False)"
proof -
  from assms(2) have "filter (\<lambda>r. local_time r = to_local_time (rss_timestamp rss_data)) (df_rows df) \<noteq> []"
    by (auto simp: filter_empty_conv)
  with assms(1) show ?thesis by (simp add: update_station_csv_def)
qed

lemma update_cases:
  assumes "dir (st_filename station_row) = Some (Table df)"
  shows "update_station_csv dir station_row rss_data = (dir, False) \<or>
         (to_local_time (rss_timestamp rss_data) \<notin> set (map local_time (df_rows df)) \<and>
          update_station_csv dir station_row rss_data =
            (dir(st_filename station_row \<mapsto> Table (sort_values (concat_row df (make_new_row rss_data)))), True))"
  using assms by (auto simp: update_station_csv_def Let_def filter_empty_conv)

lemma rows_after_append:
  "mset (df_rows (sort_values (concat_row df new_row))) = mset (df_rows df) + {#new_row#}"
  by (simp add: sort_values_def concat_row_def)

lemma distinct_after_append:
  assumes "distinct (map local_time (df_rows df))"
    and "local_time new_row \<notin> set (map local_time (df_rows df))"
  shows "distinct (map local_time (df_rows (sort_values (concat_row df new_row))))"
proof -
  have "mset (map local_time (df_rows (sort_values (concat_row df new_row))))
          = mset (map local_time (df_rows df @ [new_row]))"
    by (simp add: sort_values_def concat_row_def)
  moreover from assms have "distinct (map local_time (df_rows df @ [new_row]))"
    by simp
  ultimately show ?thesis by (metis mset_eq_imp_distinct_iff)
qed

lemmas upd_defs = update_station_csv_def example_dir_def example_table_def anand_vihar_def
  make_new_row_def to_local_time_def POLLUTANT_MAP_def concat_row_def sort_values_def

lemma example_file: "example_dir (st_filename anand_vihar) = Some (Table example_table)"
  by (simp add: example_dir_def anand_vihar_def)

lemma update_new_True: "snd (update_station_csv example_dir anand_vihar reading_new)"
  by (simp add: upd_defs reading_new_def)

text \<open>
  Claim C7. For a station file whose rows have pairwise distinct \<open>Local Time\<close>, the
  file after \<open>update_station_csv\<close> holds every row it held, at most one row more, and
  its timestamps are again pairwise distinct; and when the timestamp of the incoming
  reading is already in the file, the call returns False and nothing is written.
\<close>

theorem update_station_csv_deduplicated:
  "(dir (st_filename station_row) = Some (Table df) \<and> distinct (map local_time (df_rows df)) \<longrightarrow>
      (\<exists>df'. fst (update_station_csv dir station_row rss_data) (st_filename station_row) = Some (Table df') \<and>
         mset (df_rows df) \<subseteq># mset (df_rows df') \<and>
         length (df_rows df') \<le> length (df_rows df) + 1 \<and>
         distinct (map local_time (df_rows df')))) \<and>
   (dir (st_filename station_row) = Some (Table df) \<and>
    to_local_time (rss_timestamp rss_data) \<in> set (map local_time (df_rows df)) \<longrightarrow>
      update_station_csv dir station_row rss_data = (dir, False))"
proof (intro conjI impI)
  assume a: "dir (st_filename station_row) = Some (Table df) \<and> distinct (map local_time (df_rows df))"
  let ?new = "make_new_row rss_data"
  let ?df' = "sort_values (concat_row df ?new)"
  from a update_cases [of dir station_row df rss_data]
  consider (same) "update_station_csv dir station_row rss_data = (dir, False)"
    | (added) "to_local_time (rss_timestamp rss_data) \<notin> set (map local_time (df_rows df))"
        "update_station_csv dir station_row rss_data = (dir(st_filename station_row \<mapsto> Table ?df'), True)"
    by blast
  then show "\<exists>df'. fst (update_station_csv dir station_row rss_data) (st_filename station_row) = Some (Table df') \<and>
         mset (df_rows df) \<subseteq># mset (df_rows df') \<and>
         length (df_rows df') \<le> length (df_rows df) + 1 \<and>
         distinct (map local_time (df_rows df'))"
  proof cases
    case same
    with a show ?thesis by auto
  next
    case added
    from added(1) have "local_time ?new \<notin> set (map local_time (df_rows df))"
      by (simp add: make_new_row_def)
    with a have d: "distinct (map local_time (df_rows ?df'))"
      by (simp add: distinct_after_append)
    have m: "mset (df_rows ?df') = mset (df_rows df) + {#?new#}"
      by (rule rows_after_append)
    then have "size (mset (df_rows ?df')) = size (mset (df_rows df)) + 1" by simp
    then have l: "length (df_rows ?df') \<le> length (df_rows df) + 1" by simp
    from m have "mset (df_rows df) \<subseteq># mset (df_rows ?df')" by simp
    with added(2) d l show ?thesis by auto
  qed
next
  assume "dir (st_filename station_row) = Some (Table df) \<and>
    to_local_time (rss_timestamp rss_data) \<in> set (map local_time (df_rows df))"
  then show "update_station_csv dir station_row rss_data = (dir, False)"
    by (simp add: update_seen)
qed

theorem update_station_csv_deduplicated_witness:
  "example_dir (st_filename anand_vihar) = Some (Table example_table) \<and>
   distinct (map local_time (df_rows example_table)) \<and>
   snd (update_station_csv example_dir anand_vihar reading_new) \<and>
   (\<exists>df'. fst (update_station_csv example_dir anand_vihar reading_new) (st_filename anand_vihar)
            = Some (Table df') \<and>
      mset (df_rows example_table) \<subseteq># mset (df_rows df') \<and>
      length (df_rows df') \<le> length (df_rows example_table) + 1 \<and>
      distinct (map local_time (df_rows df'))) \<and>
   to_local_time (rss_timestamp reading_seen) \<in> set (map local_time (df_rows example_table)) \<and>
   update_station_csv example_dir anand_vihar reading_seen = (example_dir, False)"
proof -
  have d: "distinct (map local_time (df_rows example_table))"
    by (simp add: example_table_def)
  have m: "to_local_time (rss_timestamp reading_seen) \<in> set (map local_time (df_rows example_table))"
    by (simp add: example_table_def reading_seen_def to_local_time_def)
  from example_file d
    update_station_csv_deduplicated [of example_dir anand_vihar example_table reading_new]
  have a: "\<exists>df'. fst (update_station_csv example_dir anand_vihar reading_new) (st_filename anand_vihar)
            = Some (Table df') \<and>
      mset (df_rows example_table) \<subseteq># mset (df_rows df') \<and>
      length (df_rows df') \<le> length (df_rows example_table) + 1 \<and>
      distinct (map local_time (df_rows df'))"
    by blast
  from example_file m
    update_station_csv_deduplicated [of example_dir anand_vihar example_table reading_seen]
  have b: "update_station_csv example_dir anand_vihar reading_seen = (example_dir, False)"
    by blast
  from example_file d update_new_True a m b show ?thesis by blast
qed

text \<open>
  Claim C9. \<open>update_station_csv\<close> returns True, and then has written the file with
  the new row added, only when the new row has a PM25 or a PM10 cell, that is when the
  reading has a \<open>PM2.5\<close> or a \<open>PM10\<close> value; for a reading with neither it returns
  False and writes nothing, whatever other pollutants the reading holds.
\<close>

theorem update_station_csv_requires_pm:
  "(snd (update_station_csv dir station_row rss_data) \<longrightarrow>
      (\<exists>df. dir (st_filename station_row) = Some (Table df) \<and>
         fst (update_station_csv dir station_row rss_data) =
           dir(st_filename station_row \<mapsto> Table (sort_values (concat_row df (make_new_row rss_data))))) \<and>
      (''PM25'' \<in> set (map fst (cells (make_new_row rss_data))) \<or>
       ''PM10'' \<in> set (map fst (cells (make_new_row rss_data))))) \<and>
   (''PM25'' \<in> set (map fst (cells (make_new_row rss_data))) \<longleftrightarrow>
      rss_pollutants rss_data ''PM2.5'' \<noteq> None) \<and>
   (''PM10'' \<in> set (map fst (cells (make_new_row rss_data))) \<longleftrightarrow>
      rss_pollutants rss_data ''PM10'' \<noteq> None) \<and>
   (rss_pollutants rss_data ''PM2.5'' = None \<and> rss_pollutants rss_data ''PM10'' = None \<longrightarrow>
      update_station_csv dir station_row rss_data = (dir, False))"
proof (intro conjI impI)
  assume t: "snd (update_station_csv dir station_row rss_data)"
  then show "\<exists>df. dir (st_filename station_row) = Some (Table df) \<and>
         fst (update_station_csv dir station_row rss_data) =
           dir(st_filename station_row \<mapsto> Table (sort_values (concat_row df (make_new_row rss_data))))"
    by (auto simp: update_station_csv_def Let_def split: option.splits csv_file.splits if_splits)
  from t show "''PM25'' \<in> set (map fst (cells (make_new_row rss_data))) \<or>
       ''PM10'' \<in> set (map fst (cells (make_new_row rss_data)))"
    by (auto simp: update_station_csv_def Let_def split: option.splits csv_file.splits if_splits)
next
  show "''PM25'' \<in> set (map fst (cells (make_new_row rss_data))) \<longleftrightarrow>
      rss_pollutants rss_data ''PM2.5'' \<noteq> None"
    by (rule new_row_PM25)
next
  show "''PM10'' \<in> set (map fst (cells (make_new_row rss_data))) \<longleftrightarrow>
      rss_pollutants rss_data ''PM10'' \<noteq> None"
    by (rule new_row_PM10)
next
  assume "rss_pollutants rss_data ''PM2.5'' = None \<and> rss_pollutants rss_data ''PM10'' = None"
  then have "''PM25'' \<notin> set (map fst (cells (make_new_row rss_data)))"
    and "''PM10'' \<notin> set (map fst (cells (make_new_row rss_data)))"
    using new_row_PM25 [of rss_data] new_row_PM10 [of rss_data] by simp_all
  then show "update_station_csv dir station_row rss_data = (dir, False)"
    by (auto simp: update_station_csv_def Let_def split: option.splits csv_file.splits)
qed

theorem update_station_csv_requires_pm_witness:
  "snd (update_station_csv example_dir anand_vihar reading_new) \<and>
   (''PM25'' \<in> set (map fst (cells (make_new_row reading_new))) \<or>
    ''PM10'' \<in> set (map fst (cells (make_new_row reading_new)))) \<and>
   rss_pollutants reading_gas_only ''PM2.5'' = None \<and>
   rss_pollutants reading_gas_only ''PM10'' = None \<and>
   rss_pollutants reading_gas_only ''NO2'' = Some 80 \<and>
   update_station_csv example_dir anand_vihar reading_gas_only = (example_dir, False)"
proof -
  have g: "rss_pollutants reading_gas_only ''PM2.5'' = None"
    "rss_pollutants reading_gas_only ''PM10'' = None"
    "rss_pollutants reading_gas_only ''NO2'' = Some 80"
    by (simp_all add: reading_gas_only_def)
  from update_new_True
    update_station_csv_requires_pm [of example_dir anand_vihar reading_new]
  have a: "''PM25'' \<in> set (map fst (cells (make_new_row reading_new))) \<or>
    ''PM10'' \<in> set (map fst (cells (make_new_row reading_new)))"
    by blast
  from g update_station_csv_requires_pm [of example_dir anand_vihar reading_gas_only]
  have b: "update_station_csv example_dir anand_vihar reading_gas_only = (example_dir, False)"
    by blast
  from update_new_True a g b show ?thesis by blast
qed


lemma parse_pollutant_ok:
  assumes "\<forall>s e. float_of s = Inl e \<longrightarrow> e = ValueError"
  shows "\<exists>pollutants'. parse_pollutant float_of p pollutants = Inr pollutants' \<and>
           (\<forall>k v. pollutants' k = Some (Reading v) \<longrightarrow>
              pollutants k = Some (Reading v) \<or> pollutant_gives float_of p k v)"
proof (cases "xml_get p ''id''")
  case None
  then show ?thesis by (simp add: parse_pollutant_def)
next
  case (Some poll_id)
  note id = this
  show ?thesis
  proof (cases "xml_get p ''Hourly_sub_index''")
    case None
    with id show ?thesis by (simp add: parse_pollutant_def)
  next
    case (Some hv)
    show ?thesis
    proof (cases "float_of hv")
      case (Inl e)
      with assms have "e = ValueError" by blast
      with id Some Inl show ?thesis by (simp add: parse_pollutant_def)
    next
      case (Inr v)
      with id Some show ?thesis
        by (auto simp: parse_pollutant_def pollutant_gives_def)
    qed
  qed
qed

lemma parse_pollutants_ok:
  assumes "\<forall>s e. float_of s = Inl e \<longrightarrow> e = ValueError"
  shows "\<exists>pollutants'. parse_pollutants float_of ps pollutants = Inr pollutants' \<and>
           (\<forall>k v. pollutants' k = Some (Reading v) \<longrightarrow>
              pollutants k = Some (Reading v) \<or> (\<exists>p \<in> set ps. pollutant_gives float_of p k v))"
proof (induction ps arbitrary: pollutants)
  case Nil
  then show ?case by simp
next
  case (Cons p ps)
  from parse_pollutant_ok [OF assms, of p pollutants] obtain mid where
    mid: "parse_pollutant float_of p pollutants = Inr mid"
      "\<forall>k v. mid k = Some (Reading v) \<longrightarrow>
          pollutants k = Some (Reading v) \<or> pollutant_gives float_of p k v"
    by blast
  from Cons.IH [of mid] obtain fin where
    fin: "parse_pollutants float_of ps mid = Inr fin"
      "\<forall>k v. fin k = Some (Reading v) \<longrightarrow>
          mid k = Some (Reading v) \<or> (\<exists>p \<in> set ps. pollutant_gives float_of p k v)"
    by blast
  from mid(1) fin(1) have "parse_pollutants float_of (p # ps) pollutants = Inr fin"
    by simp
  moreover from mid(2) fin(2) have
    "\<forall>k v. fin k = Some (Reading v) \<longrightarrow>
       pollutants k = Some (Reading v) \<or> (\<exists>q \<in> set (p # ps). pollutant_gives float_of q k v)"
    by (metis list.set_intros(1) list.set_intros(2))
  ultimately show ?case by blast
qed

lemma parse_station_ok:
  assumes f: "\<forall>s e. float_of s = Inl e \<longrightarrow> e = ValueError"
    and t: "\<forall>s e. strptime s = Inl e \<longrightarrow> e = ValueError"
  shows "\<exists>m'. parse_station strptime float_of st m = Inr m' \<and>
           (\<forall>sid d. m' sid = Some d \<longrightarrow>
              m sid = Some d \<or>
              (station_gives strptime st sid (rss_timestamp d) \<and>
               (\<forall>k v. rss_pollutants d k = Some (Reading v) \<longrightarrow>
                  (\<exists>p \<in> set (xml_findall ''Pollutant_Index'' st). pollutant_gives float_of p k v))))"
proof -
  from parse_pollutants_ok [OF f, of "xml_findall ''Pollutant_Index'' st" Map.empty]
  obtain pol where
    pol: "parse_pollutants float_of (xml_findall ''Pollutant_Index'' st) Map.empty = Inr pol"
      "\<forall>k v. pol k = Some (Reading v) \<longrightarrow>
          (\<exists>p \<in> set (xml_findall ''Pollutant_Index'' st). pollutant_gives float_of p k v)"
    by auto
  show ?thesis
  proof (cases "xml_get st ''id''")
    case None
    then show ?thesis by (simp add: parse_station_def)
  next
    case (Some station_id)
    note id = this
    show ?thesis
    proof (cases "xml_get st ''lastupdate''")
      case None
      with id show ?thesis by (simp add: parse_station_def)
    next
      case (Some lastupdate)
      show ?thesis
      proof (cases "strptime lastupdate")
        case (Inl e)
        with t have "e = ValueError" by blast
        with id Some Inl show ?thesis by (simp add: parse_station_def)
      next
        case (Inr ts)
        with id Some pol show ?thesis
          by (auto simp: parse_station_def station_gives_def split: option.splits)
      qed
    qed
  qed
qed

lemma parse_stations_ok:
  assumes f: "\<forall>s e. float_of s = Inl e \<longrightarrow> e = ValueError"
    and t: "\<forall>s e. strptime s = Inl e \<longrightarrow> e = ValueError"
  shows "\<exists>m'. parse_stations strptime float_of sts m = Inr m' \<and>
           (\<forall>sid d. m' sid = Some d \<longrightarrow>
              m sid = Some d \<or>
              (\<exists>st \<in> set sts.
                 station_gives strptime st sid (rss_timestamp d) \<and>
                 (\<forall>k v. rss_pollutants d k = Some (Reading v) \<longrightarrow>
                    (\<exists>p \<in> set (xml_findall ''Pollutant_Index'' st). pollutant_gives float_of p k v))))"
proof (induction sts arbitrary: m)
  case Nil
  then show ?case by simp
next
  case (Cons st sts)
  let ?ok = "\<lambda>st sid d. station_gives strptime st sid (rss_timestamp d) \<and>
                 (\<forall>k v. rss_pollutants d k = Some (Reading v) \<longrightarrow>
                    (\<exists>p \<in> set (xml_findall ''Pollutant_Index'' st). pollutant_gives float_of p k v))"
  from parse_station_ok [OF f t, of st m] obtain mid where
    mid: "parse_station strptime float_of st m = Inr mid"
      "\<forall>sid d. mid sid = Some d \<longrightarrow> m sid = Some d \<or> ?ok st sid d"
    by blast
  from Cons.IH [of mid] obtain fin where
    fin: "parse_stations strptime float_of sts mid = Inr fin"
      "\<forall>sid d. fin sid = Some d \<longrightarrow> mid sid = Some d \<or> (\<exists>st \<in> set sts. ?ok st sid d)"
    by blast
  from mid(1) fin(1) have "parse_stations strptime float_of (st # sts) m = Inr fin"
    by simp
  moreover have "\<forall>sid d. fin sid = Some d \<longrightarrow> m sid = Some d \<or> (\<exists>x \<in> set (st # sts). ?ok x sid d)"
  proof (intro allI impI)
    fix sid d assume "fin sid = Some d"
    with fin(2) have "mid sid = Some d \<or> (\<exists>st \<in> set sts. ?ok st sid d)" by blast
    then show "m sid = Some d \<or> (\<exists>x \<in> set (st # sts). ?ok x sid d)"
    proof
      assume "mid sid = Some d"
      with mid(2) have "m sid = Some d \<or> ?ok st sid d" by blast
      then show ?thesis by auto
    next
      assume "\<exists>st \<in> set sts. ?ok st sid d"
      then show ?thesis by auto
    qed
  qed
  ultimately show ?case by blast
qed

lemma example_fromstring_document:
  "example_fromstring ''<AqIndex>...</AqIndex>'' = Inr example_document"
  by code_simp

lemma example_fromstring_malformed: "example_fromstring ''<AqIndex><Station'' = Inl ParseError"
  by code_simp

lemma example_fromstring_surrogate: "example_fromstring surrogate_content = Inl UnicodeEncodeError"
  by code_simp

lemmas feed_defs = parse_rss_feed_def example_fromstring_document example_document_def xml_iter_def
  parse_station_def xml_get_def xml_findall_def xml_find_def example_strptime_def
  parse_pollutant_def example_float_def

lemma example_parse:
  "\<exists>m. parse_rss_feed example_fromstring example_strptime example_float ''<AqIndex>...</AqIndex>'' = Inr m \<and>
     m ''Rohini, Delhi - DPCC'' = None \<and>
     (\<exists>d. m ''Anand Vihar, Delhi - DPCC'' = Some d \<and> rss_timestamp d = 1767823200 \<and>
        rss_pollutants d ''PM2.5'' = Some (Reading 153) \<and>
        rss_pollutants d ''PM10'' = None \<and>
        rss_pollutants d ''NO2'' = None \<and>
        rss_pollutants d ''CO'' = Some (Reading (177 / 2)) \<and>
        rss_pollutants d ''AQI'' = Some (AqiValue (Some ''153'')))"
  by (simp add: feed_defs)

lemma example_malformed:
  "parse_rss_feed example_fromstring example_strptime example_float ''<AqIndex><Station'' = Inr Map.empty"
  by (simp add: parse_rss_feed_def example_fromstring_malformed)

text \<open>
  Claim C10, as amended. For every input string on which \<open>ET.fromstring\<close> returns a
  tree or raises ParseError, and with \<open>datetime.strptime\<close> and \<open>float\<close> raising
  nothing but ValueError, \<open>parse_rss_feed\<close> returns a mapping and raises nothing. The
  mapping is empty when \<open>ET.fromstring\<close> raises ParseError. Every entry of the mapping
  comes from a Station element with that non-empty id and a non-empty lastupdate that
  parses to the entry's timestamp, and every float among the entry's pollutants comes
  from a Pollutant\_Index element of that station whose hourly value is not NA and
  parses to that float: stations and values failing this are left out.

  The claim as first stated, for every input string, fails: on a string with a lone
  surrogate \<open>ET.fromstring\<close> raises UnicodeEncodeError, which the handler of line 97
  does not catch, so the exception leaves \<open>parse_rss_feed\<close> and no mapping is returned.
\<close>

theorem parse_rss_feed_total:
  assumes x: "\<forall>e. fromstring xml_content = Inl e \<longrightarrow> e = ParseError"
    and t: "\<forall>s e. strptime s = Inl e \<longrightarrow> e = ValueError"
    and f: "\<forall>s e. float_of s = Inl e \<longrightarrow> e = ValueError"
  shows "\<exists>m. parse_rss_feed fromstring strptime float_of xml_content = Inr m \<and>
           (\<forall>e. fromstring xml_content = Inl e \<longrightarrow> m = Map.empty) \<and>
           (\<forall>doc sid d. fromstring xml_content = Inr doc \<and> m sid = Some d \<longrightarrow>
              (\<exists>st \<in> set (xml_iter ''Station'' doc).
                 station_gives strptime st sid (rss_timestamp d) \<and>
                 (\<forall>k v. rss_pollutants d k = Some (Reading v) \<longrightarrow>
                    (\<exists>p \<in> set (xml_findall ''Pollutant_Index'' st). pollutant_gives float_of p k v))))"
proof (cases "fromstring xml_content")
  case (Inl e)
  with x have "e = ParseError" by blast
  with Inl show ?thesis by (simp add: parse_rss_feed_def)
next
  case (Inr doc)
  from parse_stations_ok [OF f t, of "xml_iter ''Station'' doc" Map.empty] obtain m where
    m: "parse_stations strptime float_of (xml_iter ''Station'' doc) Map.empty = Inr m"
      "\<forall>sid d. m sid = Some d \<longrightarrow>
         (\<exists>st \<in> set (xml_iter ''Station'' doc).
            station_gives strptime st sid (rss_timestamp d) \<and>
            (\<forall>k v. rss_pollutants d k = Some (Reading v) \<longrightarrow>
               (\<exists>p \<in> set (xml_findall ''Pollutant_Index'' st). pollutant_gives float_of p k v)))"
    by auto
  from Inr m(1) have "parse_rss_feed fromstring strptime float_of xml_content = Inr m"
    by (simp add: parse_rss_feed_def)
  with Inr m(2) show ?thesis by auto
qed

theorem parse_rss_feed_total_witness:
  "(\<exists>m. parse_rss_feed example_fromstring example_strptime example_float ''<AqIndex>...</AqIndex>'' = Inr m \<and>
      m ''Rohini, Delhi - DPCC'' = None \<and>
      (\<exists>d. m ''Anand Vihar, Delhi - DPCC'' = Some d \<and>
         rss_pollutants d ''PM2.5'' = Some (Reading 153) \<and> rss_pollutants d ''PM10'' = None) \<and>
      (\<forall>sid d. m sid = Some d \<longrightarrow>
         (\<exists>st \<in> set (xml_iter ''Station'' example_document).
            station_gives example_strptime st sid (rss_timestamp d) \<and>
            (\<forall>k v. rss_pollutants d k = Some (Reading v) \<longrightarrow>
               (\<exists>p \<in> set (xml_findall ''Pollutant_Index'' st). pollutant_gives example_float p k v))))) \<and>
   parse_rss_feed example_fromstring example_strptime example_float ''<AqIndex><Station'' = Inr Map.empty"
proof -
  have doc: "example_fromstring ''<AqIndex>...</AqIndex>'' = Inr example_document"
    by (rule example_fromstring_document)
  then have x: "\<forall>e. example_fromstring ''<AqIndex>...</AqIndex>'' = Inl e \<longrightarrow> e = ParseError"
    by simp
  have x': "\<forall>e. example_fromstring ''<AqIndex><Station'' = Inl e \<longrightarrow> e = ParseError"
    by (simp add: example_fromstring_malformed)
  have t: "\<forall>s e. example_strptime s = Inl e \<longrightarrow> e = ValueError"
    by (auto simp: example_strptime_def split: if_splits)
  have f: "\<forall>s e. example_float s = Inl e \<longrightarrow> e = ValueError"
    by (auto simp: example_float_def split: if_splits)
  from parse_rss_feed_total
    [where fromstring = example_fromstring and xml_content = "''<AqIndex><Station''", OF x' t f]
    example_fromstring_malformed
  have empty: "parse_rss_feed example_fromstring example_strptime example_float ''<AqIndex><Station''
                 = Inr Map.empty"
    by auto
  from parse_rss_feed_total
    [where fromstring = example_fromstring and xml_content = "''<AqIndex>...</AqIndex>''", OF x t f]
    doc
  obtain m where
    m: "parse_rss_feed example_fromstring example_strptime example_float ''<AqIndex>...</AqIndex>'' = Inr m"
    and from_station: "\<forall>sid d. m sid = Some d \<longrightarrow>
         (\<exists>st \<in> set (xml_iter ''Station'' example_document).
            station_gives example_strptime st sid (rss_timestamp d) \<and>
            (\<forall>k v. rss_pollutants d k = Some (Reading v) \<longrightarrow>
               (\<exists>p \<in> set (xml_findall ''Pollutant_Index'' st). pollutant_gives example_float p k v)))"
    by blast
  from example_parse m have
    "m ''Rohini, Delhi - DPCC'' = None \<and>
     (\<exists>d. m ''Anand Vihar, Delhi - DPCC'' = Some d \<and>
        rss_pollutants d ''PM2.5'' = Some (Reading 153) \<and> rss_pollutants d ''PM10'' = None)"
    by auto
  with m from_station empty show ?thesis by blast
qed

theorem parse_rss_feed_surrogate_counterexample:
  "example_fromstring surrogate_content = Inl UnicodeEncodeError \<and>
   parse_rss_feed example_fromstring example_strptime example_float surrogate_content
     = Inl UnicodeEncodeError"
  by (simp add: parse_rss_feed_def example_fromstring_surrogate)

end
